theory Spec2Isabelle
  imports Main "HOL-Library.AList" "HOL-Library.Sublist"
begin

section \<open>JSON values, responses and the relational store\<close>

text \<open>
  The endpoints of \<^verbatim>\<open>namespace_pipelines.py\<close> exchange JSON documents. A JSON object is
  an association list in insertion order, as a Python dict is; numbers are integers here.
  A response is the pair the handlers return: the body and the HTTP status.
\<close>

datatype json =
    JNull
  | JBool bool
  | JNum int
  | JStr string
  | JArr "json list"
  | JObj "(string \<times> json) list"

type_synonym response = "json \<times> nat"

definition message :: "string \<Rightarrow> json" where
  "message t = JObj [(''message'', JStr t)]"

text \<open>
  The ORM models (\<^verbatim>\<open>app.models\<close>) are not part of the sources at hand. The store keeps
  the three tables the module touches. A \<^verbatim>\<open>Pipeline\<close> row is built from the request
  dictionary (\<^verbatim>\<open>models.Pipeline(**pipeline)\<close>) and updated from one, so it is kept as
  the dictionary of its columns. Interactive runs and sessions carry the columns the
  module reads: the identifiers and the status.
\<close>

type_synonym pipeline_row = "(string \<times> json) list"

record interactive_run =
  run_uuid :: string
  run_project_uuid :: string
  run_pipeline_uuid :: string
  run_status :: string

record interactive_session =
  session_project_uuid :: string
  session_pipeline_uuid :: string
  session_status :: string

record store =
  pipelines :: "pipeline_row list"
  interactive_runs :: "interactive_run list"
  interactive_sessions :: "interactive_session list"

section \<open>Operations, errors and fallible primitives\<close>

text \<open>
  The concrete two-phase functions of the module: \<^verbatim>\<open>DeletePipeline\<close> (defined in it),
  \<^verbatim>\<open>AbortPipelineRun\<close> and \<^verbatim>\<open>StopInteractiveSession\<close> (imported), each with the
  arguments of its \<^verbatim>\<open>transaction\<close> call.
\<close>

datatype operation =
    DeletePipeline string string
  | AbortPipelineRun string
  | StopInteractiveSession string string

text \<open>
  Exceptions are values. \<open>StoreError\<close> is an unexpected failure of the persistence
  layer, \<open>DomainError\<close> an explicit domain error; both carry the text that \<^verbatim>\<open>str(e)\<close>
  gives. The other four are the error classes of the coordinator's taxonomy; no message
  text is fixed for \<open>TransactionDoomed\<close> and \<open>CollateralFailure\<close>, so their class names
  stand for it.
\<close>

datatype error =
    StoreError string
  | DomainError string
  | StoreUnavailable string
  | TransactionDoomed
  | CommitFailed string
  | CollateralFailure "(operation \<times> string) list"

fun str :: "error \<Rightarrow> string" where
  "str (StoreError t) = t"
| "str (DomainError t) = t"
| "str (StoreUnavailable t) = t"
| "str TransactionDoomed = ''TransactionDoomed''"
| "str (CommitFailed t) = t"
| "str (CollateralFailure fs) = ''CollateralFailure''"

text \<open>
  Every call into the persistence layer may raise. Which call raises, in which state
  of the session and with which error, is a parameter of the model (\<open>faults\<close>): the
  theorems hold for every such behaviour of the store. \<open>ext_faults\<close> does the same for
  the external resource managers that the collateral steps talk to.
\<close>

datatype db_op =
    Begin
  | Commit
  | AddPipeline pipeline_row
  | UpdatePipeline string string json
  | QueryRuns string string
  | AbortRun string
  | DeleteRun string
  | StopSession string string

type_synonym faults = "db_op \<Rightarrow> store \<Rightarrow> error option"

datatype collateral_spec =
    RunToStop string
  | SessionToStop string string

type_synonym ext_faults = "collateral_spec \<Rightarrow> string option"

section \<open>The create and update endpoints\<close>


text \<open>
  \<^verbatim>\<open>Pipeline.put\<close>. \<^verbatim>\<open>filter_by(project_uuid=..., uuid=...)\<close> selects the rows whose two
  columns hold the identifiers; \<^verbatim>\<open>update\<close> assigns every key of the request dictionary
  in each selected row. \<^verbatim>\<open>update\<close> takes a dictionary of columns: a body that is not a
  JSON object raises, whatever the rows, and so may the store on any body.
\<close>

definition pipeline_matches :: "string \<Rightarrow> string \<Rightarrow> pipeline_row \<Rightarrow> bool" where
  "pipeline_matches project_uuid pipeline_uuid row \<longleftrightarrow>
     map_of row ''project_uuid'' = Some (JStr project_uuid) \<and>
     map_of row ''uuid'' = Some (JStr pipeline_uuid)"

definition update_row :: "(string \<times> json) list \<Rightarrow> pipeline_row \<Rightarrow> pipeline_row" where
  "update_row kvs row = foldl (\<lambda>r (k, v). AList.update k v r) row kvs"

definition Pipeline_put :: "faults \<Rightarrow> string \<Rightarrow> string \<Rightarrow> json \<Rightarrow> store \<Rightarrow> store \<times> response" where
  "Pipeline_put F project_uuid pipeline_uuid body db =
     (case F (UpdatePipeline project_uuid pipeline_uuid body) db of
        Some e \<Rightarrow> (db, (message ''Failed update operation.'', 500))
      | None \<Rightarrow>
          (case body of
             JObj kvs \<Rightarrow>
               (let sess = db\<lparr>pipelines :=
                      map (\<lambda>row. if pipeline_matches project_uuid pipeline_uuid row
                                  then update_row kvs row else row) (pipelines db)\<rparr>
                in case F Commit sess of
                     Some e \<Rightarrow> (db, (message ''Failed update operation.'', 500))
                   | None \<Rightarrow> (sess, (message ''Pipeline was updated successfully.'', 200)))
           | _ \<Rightarrow> (db, (message ''Failed update operation.'', 500))))"

section \<open>The two-phase coordinator\<close>

text \<open>
  The coordinator threads one session (the uncommitted state of the store), the doomed
  mark with the error that set it, and the ordered queue of collateral effects. The
  trace records, in order, what happened through the coordinator: it is what the claims
  about order and counts are stated on.
\<close>

datatype event =
    Delegated operation
  | Deleted string
  | Committed
  | RolledBack
  | CollateralRun operation collateral_spec

record coordinator =
  tpe_session :: store
  tpe_doomed :: "error option"
  tpe_queue :: "(operation \<times> collateral_spec) list"
  tpe_trace :: "event list"

type_synonym 'a step = "coordinator \<Rightarrow> (error + 'a) \<times> coordinator"

text \<open>
  Modelled from the spec: \<^verbatim>\<open>TwoPhaseFunction.transaction\<close>, the base-class method of
  \<^verbatim>\<open>_orchest.internals.two_phase_executor\<close> that every \<^verbatim>\<open>X(tpe).transaction(...)\<close> call
  goes through, is missing from the sources. It is the coordinator's \<^verbatim>\<open>run\<close>: fail fast
  with \<open>TransactionDoomed\<close> without touching the store when the unit of work is doomed;
  otherwise invoke the transactional step; on failure propagate the error unchanged and
  mark the unit of work doomed; on success append the operation's collateral step, bound
  with the state the transactional step returned, to the queue. A step that returns
  nothing has no collateral effect, and nothing is appended for it.
\<close>

definition transaction :: "operation \<Rightarrow> collateral_spec option step \<Rightarrow> unit step" where
  "transaction op transactional_step c =
     (case tpe_doomed c of
        Some d \<Rightarrow> (Inl TransactionDoomed, c)
      | None \<Rightarrow>
          (case transactional_step (c\<lparr>tpe_trace := tpe_trace c @ [Delegated op]\<rparr>) of
             (Inl e, c') \<Rightarrow> (Inl e, c'\<lparr>tpe_doomed := Some e\<rparr>)
           | (Inr None, c') \<Rightarrow> (Inr (), c')
           | (Inr (Some spec), c') \<Rightarrow> (Inr (), c'\<lparr>tpe_queue := tpe_queue c' @ [(op, spec)]\<rparr>)))"

text \<open>
  Modelled from the spec: \<^verbatim>\<open>AbortPipelineRun\<close> (\<^verbatim>\<open>app.apis.namespace_runs\<close>) is missing from
  the sources. Its transactional step marks the execution aborted; its collateral step
  stops the underlying external execution. For an identifier with no row the spec says
  nothing: the model changes nothing and captures no collateral state.
\<close>

definition AbortPipelineRun__transaction :: "faults \<Rightarrow> string \<Rightarrow> collateral_spec option step" where
  "AbortPipelineRun__transaction F uuid c =
     (case F (AbortRun uuid) (tpe_session c) of
        Some e \<Rightarrow> (Inl e, c)
      | None \<Rightarrow>
          if uuid \<in> set (map run_uuid (interactive_runs (tpe_session c)))
          then (Inr (Some (RunToStop uuid)),
                c\<lparr>tpe_session := (tpe_session c)\<lparr>interactive_runs :=
                     map (\<lambda>r. if run_uuid r = uuid then r\<lparr>run_status := ''ABORTED''\<rparr> else r)
                       (interactive_runs (tpe_session c))\<rparr>\<rparr>)
          else (Inr None, c))"

definition AbortPipelineRun_transaction :: "faults \<Rightarrow> string \<Rightarrow> unit step" where
  "AbortPipelineRun_transaction F uuid =
     transaction (AbortPipelineRun uuid) (AbortPipelineRun__transaction F uuid)"

text \<open>
  Modelled from the spec: \<^verbatim>\<open>StopInteractiveSession\<close> (\<^verbatim>\<open>app.apis.namespace_sessions\<close>) is
  missing from the sources. It acts on the pipeline's interactive session if one exists:
  the store change that a rollback undoes is kept as the session's status becoming
  \<^verbatim>\<open>STOPPING\<close>, and the collateral step stops the session. Without a session it changes
  nothing and captures no collateral state.
\<close>

definition session_matches :: "string \<Rightarrow> string \<Rightarrow> interactive_session \<Rightarrow> bool" where
  "session_matches project_uuid pipeline_uuid s \<longleftrightarrow>
     session_project_uuid s = project_uuid \<and> session_pipeline_uuid s = pipeline_uuid"

definition StopInteractiveSession__transaction ::
    "faults \<Rightarrow> string \<Rightarrow> string \<Rightarrow> collateral_spec option step" where
  "StopInteractiveSession__transaction F project_uuid pipeline_uuid c =
     (case F (StopSession project_uuid pipeline_uuid) (tpe_session c) of
        Some e \<Rightarrow> (Inl e, c)
      | None \<Rightarrow>
          if filter (session_matches project_uuid pipeline_uuid)
               (interactive_sessions (tpe_session c)) = []
          then (Inr None, c)
          else (Inr (Some (SessionToStop project_uuid pipeline_uuid)),
                c\<lparr>tpe_session := (tpe_session c)\<lparr>interactive_sessions :=
                     map (\<lambda>s. if session_matches project_uuid pipeline_uuid s
                               then s\<lparr>session_status := ''STOPPING''\<rparr> else s)
                       (interactive_sessions (tpe_session c))\<rparr>\<rparr>))"

definition StopInteractiveSession_transaction :: "faults \<Rightarrow> string \<Rightarrow> string \<Rightarrow> unit step" where
  "StopInteractiveSession_transaction F project_uuid pipeline_uuid =
     transaction (StopInteractiveSession project_uuid pipeline_uuid)
       (StopInteractiveSession__transaction F project_uuid pipeline_uuid)"

section \<open>DeletePipeline\<close>

text \<open>
  \<^verbatim>\<open>db.session.delete(run)\<close> removes the row with the run's primary key from the session.
\<close>

definition db_session_delete :: "faults \<Rightarrow> interactive_run \<Rightarrow> unit step" where
  "db_session_delete F run c =
     (case F (DeleteRun (run_uuid run)) (tpe_session c) of
        Some e \<Rightarrow> (Inl e, c)
      | None \<Rightarrow>
          (Inr (), c\<lparr>tpe_session := (tpe_session c)\<lparr>interactive_runs :=
                        filter (\<lambda>r. run_uuid r \<noteq> run_uuid run) (interactive_runs (tpe_session c))\<rparr>,
                     tpe_trace := tpe_trace c @ [Deleted (run_uuid run)]\<rparr>))"

text \<open>The query of \<^verbatim>\<open>DeletePipeline._transaction\<close>: the two \<^verbatim>\<open>filter\<close> calls.\<close>

definition selected :: "string \<Rightarrow> string \<Rightarrow> interactive_run \<Rightarrow> bool" where
  "selected project_uuid pipeline_uuid r \<longleftrightarrow>
     run_project_uuid r = project_uuid \<and> run_pipeline_uuid r = pipeline_uuid \<and>
     run_status r \<in> set [''PENDING'', ''STARTED'']"

text \<open>The \<^verbatim>\<open>for run in interactive_runs\<close> loop; an exception leaves it at once.\<close>

fun DeletePipeline_loop :: "faults \<Rightarrow> interactive_run list \<Rightarrow> unit step" where
  "DeletePipeline_loop F [] c = (Inr (), c)"
| "DeletePipeline_loop F (run # runs) c =
     (case AbortPipelineRun_transaction F (run_uuid run) c of
        (Inl e, c') \<Rightarrow> (Inl e, c')
      | (Inr u, c') \<Rightarrow>
          (case db_session_delete F run c' of
             (Inl e, c'') \<Rightarrow> (Inl e, c'')
           | (Inr u', c'') \<Rightarrow> DeletePipeline_loop F runs c''))"

definition DeletePipeline__transaction ::
    "faults \<Rightarrow> string \<Rightarrow> string \<Rightarrow> collateral_spec option step" where
  "DeletePipeline__transaction F project_uuid pipeline_uuid c =
     (case F (QueryRuns project_uuid pipeline_uuid) (tpe_session c) of
        Some e \<Rightarrow> (Inl e, c)
      | None \<Rightarrow>
          (let interactive_runs' =
                 filter (selected project_uuid pipeline_uuid) (interactive_runs (tpe_session c))
           in case DeletePipeline_loop F interactive_runs' c of
                (Inl e, c') \<Rightarrow> (Inl e, c')
              | (Inr u, c') \<Rightarrow>
                  (case StopInteractiveSession_transaction F project_uuid pipeline_uuid c' of
                     (Inl e, c'') \<Rightarrow> (Inl e, c'')
                   | (Inr u', c'') \<Rightarrow> (Inr None, c''))))"

definition DeletePipeline_transaction :: "faults \<Rightarrow> string \<Rightarrow> string \<Rightarrow> unit step" where
  "DeletePipeline_transaction F project_uuid pipeline_uuid =
     transaction (DeletePipeline project_uuid pipeline_uuid)
       (DeletePipeline__transaction F project_uuid pipeline_uuid)"

section \<open>Collateral steps\<close>

text \<open>
  The external world is the list of stops performed so far. \<^verbatim>\<open>DeletePipeline._collateral\<close>
  is \<^verbatim>\<open>pass\<close>. The collateral steps of the two imported operations are modelled from the
  spec: each performs the stop named by the captured state, unless the resource manager
  raises.
\<close>

type_synonym world = "collateral_spec list"

definition DeletePipeline__collateral :: "world \<Rightarrow> string + world" where
  "DeletePipeline__collateral w = Inr w"

definition external_stop :: "ext_faults \<Rightarrow> collateral_spec \<Rightarrow> world \<Rightarrow> string + world" where
  "external_stop G spec w = (case G spec of Some t \<Rightarrow> Inl t | None \<Rightarrow> Inr (w @ [spec]))"

fun collateral :: "ext_faults \<Rightarrow> operation \<Rightarrow> collateral_spec \<Rightarrow> world \<Rightarrow> string + world" where
  "collateral G (DeletePipeline p pl) spec w = DeletePipeline__collateral w"
| "collateral G (AbortPipelineRun uuid) spec w = external_stop G spec w"
| "collateral G (StopInteractiveSession p pl) spec w = external_stop G spec w"

section \<open>The coordinator's scope\<close>

text \<open>
  Modelled from the spec: \<^verbatim>\<open>TwoPhaseExecutor\<close> (\<^verbatim>\<open>_orchest.internals.two_phase_executor\<close>)
  is missing from the sources. Opening begins a unit of work with an empty queue, or
  fails with \<open>StoreUnavailable\<close>. Closing after a failure (or with a doomed unit of work)
  rolls back, runs no collateral effect and lets the triggering error through. Closing
  normally commits; a failing commit surfaces as \<open>CommitFailed\<close>, no collateral effect
  runs and, the unit of work being released by commit or rollback on every exit path,
  the session is rolled back; after a successful commit the queue is drained in order, a failing effect does
  not stop the later ones, and the failures are reported together, to the caller of the
  scope, as one \<open>CollateralFailure\<close> while the committed changes stay.
\<close>

record scope_result =
  raised :: "error option"
  db_after :: store
  world_after :: world
  events :: "event list"

definition fresh_coordinator :: "store \<Rightarrow> coordinator" where
  "fresh_coordinator db =
     \<lparr>tpe_session = db, tpe_doomed = None, tpe_queue = [], tpe_trace = []\<rparr>"

definition TwoPhaseExecutor_open :: "faults \<Rightarrow> store \<Rightarrow> error + coordinator" where
  "TwoPhaseExecutor_open F db =
     (case F Begin db of
        Some e \<Rightarrow> Inl (StoreUnavailable (str e))
      | None \<Rightarrow> Inr (fresh_coordinator db))"

fun drain :: "ext_faults \<Rightarrow> (operation \<times> collateral_spec) list \<Rightarrow>
    (operation \<times> string) list \<times> world \<times> event list \<Rightarrow>
    (operation \<times> string) list \<times> world \<times> event list" where
  "drain G [] acc = acc"
| "drain G ((op, spec) # q) (failures, w, tr) =
     (case collateral G op spec w of
        Inl t \<Rightarrow> drain G q (failures @ [(op, t)], w, tr @ [CollateralRun op spec])
      | Inr w' \<Rightarrow> drain G q (failures, w', tr @ [CollateralRun op spec]))"

definition rollback :: "error \<Rightarrow> store \<Rightarrow> world \<Rightarrow> coordinator \<Rightarrow> scope_result" where
  "rollback e db w c =
     \<lparr>raised = Some e, db_after = db, world_after = w, events = tpe_trace c @ [RolledBack]\<rparr>"

definition TwoPhaseExecutor_exit ::
    "faults \<Rightarrow> ext_faults \<Rightarrow> store \<Rightarrow> world \<Rightarrow> (error + unit) \<times> coordinator \<Rightarrow> scope_result" where
  "TwoPhaseExecutor_exit F G db w body_result =
     (case body_result of
        (Inl e, c) \<Rightarrow> rollback e db w c
      | (Inr u, c) \<Rightarrow>
          (case tpe_doomed c of
             Some e \<Rightarrow> rollback e db w c
           | None \<Rightarrow>
               (case F Commit (tpe_session c) of
                  Some e \<Rightarrow> rollback (CommitFailed (str e)) db w c
                | None \<Rightarrow>
                    (case drain G (tpe_queue c) ([], w, tpe_trace c @ [Committed]) of
                       (failures, w', tr) \<Rightarrow>
                         \<lparr>raised = (if failures = [] then None
                                    else Some (CollateralFailure failures)),
                          db_after = tpe_session c, world_after = w', events = tr\<rparr>))))"

definition with_TwoPhaseExecutor ::
    "faults \<Rightarrow> ext_faults \<Rightarrow> store \<Rightarrow> world \<Rightarrow> unit step \<Rightarrow> scope_result" where
  "with_TwoPhaseExecutor F G db w body =
     (case TwoPhaseExecutor_open F db of
        Inl e \<Rightarrow> \<lparr>raised = Some e, db_after = db, world_after = w, events = []\<rparr>
      | Inr tpe \<Rightarrow> TwoPhaseExecutor_exit F G db w (body tpe))"

text \<open>
  \<^verbatim>\<open>Pipeline.delete\<close>: the scope around \<^verbatim>\<open>DeletePipeline(tpe).transaction(...)\<close>, and the
  \<^verbatim>\<open>except\<close> branch that answers with \<^verbatim>\<open>str(e)\<close>.
\<close>

definition Pipeline_delete ::
    "faults \<Rightarrow> ext_faults \<Rightarrow> string \<Rightarrow> string \<Rightarrow> store \<Rightarrow> world \<Rightarrow> scope_result \<times> response" where
  "Pipeline_delete F G project_uuid pipeline_uuid db w =
     (let r = with_TwoPhaseExecutor F G db w (DeletePipeline_transaction F project_uuid pipeline_uuid)
      in case raised r of
           Some e \<Rightarrow> (r, (message (str e), 500))
         | None \<Rightarrow> (r, (message ''Pipeline deletion was successful.'', 200)))"

text \<open>
  A sequence of operations run one after the other inside one scope; the first exception
  leaves the scope's body.
\<close>

fun operation_transaction :: "faults \<Rightarrow> operation \<Rightarrow> unit step" where
  "operation_transaction F (DeletePipeline p pl) = DeletePipeline_transaction F p pl"
| "operation_transaction F (AbortPipelineRun uuid) = AbortPipelineRun_transaction F uuid"
| "operation_transaction F (StopInteractiveSession p pl) = StopInteractiveSession_transaction F p pl"

fun run_operations :: "faults \<Rightarrow> operation list \<Rightarrow> unit step" where
  "run_operations F [] c = (Inr (), c)"
| "run_operations F (op # ops) c =
     (case operation_transaction F op c of
        (Inl e, c') \<Rightarrow> (Inl e, c')
      | (Inr u, c') \<Rightarrow> run_operations F ops c')"

section \<open>Auxiliary definitions for the statements and the scenarios\<close>

text \<open>
  Who owns a queue entry, and which events a transactional step can add to the trace.
\<close>

definition is_abort_entry :: "operation \<times> collateral_spec \<Rightarrow> bool" where
  "is_abort_entry x = (case fst x of AbortPipelineRun u \<Rightarrow> True | _ \<Rightarrow> False)"

definition loop_trace :: "interactive_run list \<Rightarrow> event list" where
  "loop_trace rs =
     concat (map (\<lambda>r. [Delegated (AbortPipelineRun (run_uuid r)), Deleted (run_uuid r)]) rs)"

definition step_event :: "event \<Rightarrow> bool" where
  "step_event ev = (case ev of Delegated op \<Rightarrow> True | Deleted u \<Rightarrow> True | _ \<Rightarrow> False)"

definition delegated_entry :: "operation \<times> collateral_spec \<Rightarrow> bool" where
  "delegated_entry x = (case fst x of DeletePipeline p pl \<Rightarrow> False | _ \<Rightarrow> True)"

text \<open>
  What every transactional step of the module maintains, whatever its outcome: the
  pipelines stay, the queue and the trace only grow, by entries of the delegated
  operations and by step events, a normal return leaves the doomed mark as it was, and an
  error raised on a unit of work that was not doomed is one a store primitive raised.
\<close>

definition preserves :: "faults \<Rightarrow> coordinator \<Rightarrow> (error + 'a) \<times> coordinator \<Rightarrow> bool" where
  "preserves F c rc \<longleftrightarrow>
     pipelines (tpe_session (snd rc)) = pipelines (tpe_session c) \<and>
     (\<exists>q. tpe_queue (snd rc) = tpe_queue c @ q \<and> list_all delegated_entry q) \<and>
     (\<exists>es. tpe_trace (snd rc) = tpe_trace c @ es \<and> list_all step_event es) \<and>
     (case fst rc of
        Inl e \<Rightarrow> tpe_doomed c = None \<longrightarrow> (\<exists>op s. F op s = Some e)
      | Inr x \<Rightarrow> tpe_doomed (snd rc) = tpe_doomed c)"

text \<open>
  The collateral effects that ran, read off the events of a scope in order, and the
  sequence of actions the transactional step of delete-pipeline is to perform on a store.
\<close>

fun collateral_runs :: "event list \<Rightarrow> (operation \<times> collateral_spec) list" where
  "collateral_runs [] = []"
| "collateral_runs (CollateralRun op spec # es) = (op, spec) # collateral_runs es"
| "collateral_runs (ev # es) = collateral_runs es"

definition delegation_order :: "string \<Rightarrow> string \<Rightarrow> store \<Rightarrow> event list" where
  "delegation_order p pl db =
     concat (map (\<lambda>r. [Delegated (AbortPipelineRun (run_uuid r)), Deleted (run_uuid r)])
       (filter (selected p pl) (interactive_runs db))) @ [Delegated (StopInteractiveSession p pl)]"

text \<open>
  The selection in the words of the claims: the runs of the given project and pipeline
  whose status is PENDING or STARTED, in the order of the table. Then what a normal return
  of the transactional step of delete-pipeline leaves behind: one queue entry of
  abort-run per such run, one of stop-session if the pipeline has a session, and the
  sessions of the pipeline handed to stop-session.
\<close>

definition pending_or_started :: "string \<Rightarrow> string \<Rightarrow> store \<Rightarrow> interactive_run list" where
  "pending_or_started project_uuid pipeline_uuid db =
     filter (\<lambda>r. run_project_uuid r = project_uuid \<and> run_pipeline_uuid r = pipeline_uuid \<and>
                 (run_status r = ''PENDING'' \<or> run_status r = ''STARTED''))
       (interactive_runs db)"

definition abort_entries :: "interactive_run list \<Rightarrow> (operation \<times> collateral_spec) list" where
  "abort_entries rs = map (\<lambda>r. (AbortPipelineRun (run_uuid r), RunToStop (run_uuid r))) rs"

definition stop_entries :: "string \<Rightarrow> string \<Rightarrow> store \<Rightarrow> (operation \<times> collateral_spec) list" where
  "stop_entries project_uuid pipeline_uuid db =
     (if filter (session_matches project_uuid pipeline_uuid) (interactive_sessions db) = [] then []
      else [(StopInteractiveSession project_uuid pipeline_uuid,
             SessionToStop project_uuid pipeline_uuid)])"

definition stopping :: "string \<Rightarrow> string \<Rightarrow> interactive_session list \<Rightarrow> interactive_session list" where
  "stopping project_uuid pipeline_uuid ss =
     map (\<lambda>s. if session_matches project_uuid pipeline_uuid s
               then s\<lparr>session_status := ''STOPPING''\<rparr> else s) ss"

text \<open>
  What draining a queue of the delegated operations yields: the stops that the resource
  managers accept, in order, and the refused ones with the text of their errors.
\<close>

definition performed :: "ext_faults \<Rightarrow> (operation \<times> collateral_spec) list \<Rightarrow> world" where
  "performed G q = filter (\<lambda>spec. G spec = None) (map snd q)"

definition collateral_failures ::
    "ext_faults \<Rightarrow> (operation \<times> collateral_spec) list \<Rightarrow> (operation \<times> string) list" where
  "collateral_failures G q =
     concat (map (\<lambda>(op, spec). case G spec of None \<Rightarrow> [] | Some t \<Rightarrow> [(op, t)]) q)"

text \<open>
  Concrete inputs: a store with one pipeline, three runs (one of them finished) and an
  active session; an empty store; a store and resource managers that never raise; a
  store that raises a given error on one given call.
\<close>

definition scenario_store :: store where
  "scenario_store =
     \<lparr>pipelines =
        [[(''project_uuid'', JStr ''proj''), (''uuid'', JStr ''pipe''), (''env_variables'', JObj [])]],
      interactive_runs =
        [\<lparr>run_uuid = ''run-1'', run_project_uuid = ''proj'', run_pipeline_uuid = ''pipe'',
           run_status = ''PENDING''\<rparr>,
         \<lparr>run_uuid = ''run-2'', run_project_uuid = ''proj'', run_pipeline_uuid = ''pipe'',
           run_status = ''SUCCESS''\<rparr>,
         \<lparr>run_uuid = ''run-3'', run_project_uuid = ''proj'', run_pipeline_uuid = ''pipe'',
           run_status = ''STARTED''\<rparr>],
      interactive_sessions =
        [\<lparr>session_project_uuid = ''proj'', session_pipeline_uuid = ''pipe'',
           session_status = ''RUNNING''\<rparr>]\<rparr>"

definition empty_store :: store where
  "empty_store = \<lparr>pipelines = [], interactive_runs = [], interactive_sessions = []\<rparr>"

definition no_faults :: faults where
  "no_faults op s = None"

definition no_ext_faults :: ext_faults where
  "no_ext_faults spec = None"

definition failing :: "db_op \<Rightarrow> error \<Rightarrow> faults" where
  "failing op e op' s = (if op' = op then Some e else None)"

text \<open>A run in a terminal state: its status is neither PENDING nor STARTED.\<close>

definition terminal :: "interactive_run \<Rightarrow> bool" where
  "terminal r \<longleftrightarrow> run_status r \<notin> set [''PENDING'', ''STARTED'']"

section \<open>Properties\<close>

lemma mark_absent:
  "u \<notin> run_uuid ` set xs \<Longrightarrow>
     map (\<lambda>r. if run_uuid r = u then r\<lparr>run_status := t\<rparr> else r) xs = xs"
  by (induction xs) auto

lemma abort_ok:
  assumes "AbortPipelineRun_transaction F u c = (Inr x, c')"
  shows "tpe_doomed c = None" "tpe_doomed c' = None"
    "tpe_trace c' = tpe_trace c @ [Delegated (AbortPipelineRun u)]"
    "pipelines (tpe_session c') = pipelines (tpe_session c)"
    "interactive_sessions (tpe_session c') = interactive_sessions (tpe_session c)"
    "interactive_runs (tpe_session c') =
       map (\<lambda>r. if run_uuid r = u then r\<lparr>run_status := ''ABORTED''\<rparr> else r)
         (interactive_runs (tpe_session c))"
    "tpe_queue c' = tpe_queue c @
       (if u \<in> set (map run_uuid (interactive_runs (tpe_session c)))
        then [(AbortPipelineRun u, RunToStop u)] else [])"
  using assms
  by (auto simp: AbortPipelineRun_transaction_def transaction_def AbortPipelineRun__transaction_def
      mark_absent split: option.splits if_splits)

lemma abort_fail:
  assumes "AbortPipelineRun_transaction F u c = (Inl e, c')"
  shows "tpe_session c' = tpe_session c" "tpe_queue c' = tpe_queue c"
    "tpe_trace c' = tpe_trace c \<or> tpe_trace c' = tpe_trace c @ [Delegated (AbortPipelineRun u)]"
    "tpe_doomed c = None \<Longrightarrow> \<exists>op s. F op s = Some e"
    "tpe_doomed c = None \<Longrightarrow> tpe_trace c' = tpe_trace c @ [Delegated (AbortPipelineRun u)]"
  using assms
  by (auto simp: AbortPipelineRun_transaction_def transaction_def AbortPipelineRun__transaction_def
      split: option.splits if_splits)

lemma stop_ok:
  assumes "StopInteractiveSession_transaction F p pl c = (Inr x, c')"
  shows "tpe_doomed c = None" "tpe_doomed c' = None"
    "tpe_trace c' = tpe_trace c @ [Delegated (StopInteractiveSession p pl)]"
    "pipelines (tpe_session c') = pipelines (tpe_session c)"
    "interactive_runs (tpe_session c') = interactive_runs (tpe_session c)"
    "tpe_queue c' = tpe_queue c @
       (if filter (session_matches p pl) (interactive_sessions (tpe_session c)) = []
        then [] else [(StopInteractiveSession p pl, SessionToStop p pl)])"
    "filter (session_matches p pl) (interactive_sessions (tpe_session c)) = []
       \<Longrightarrow> tpe_session c' = tpe_session c"
  using assms
  by (auto simp: StopInteractiveSession_transaction_def transaction_def
      StopInteractiveSession__transaction_def split: option.splits if_splits)

lemma stop_fail:
  assumes "StopInteractiveSession_transaction F p pl c = (Inl e, c')"
  shows "tpe_session c' = tpe_session c" "tpe_queue c' = tpe_queue c"
    "tpe_trace c' = tpe_trace c \<or> tpe_trace c' = tpe_trace c @ [Delegated (StopInteractiveSession p pl)]"
    "tpe_doomed c = None \<Longrightarrow> \<exists>op s. F op s = Some e"
    "tpe_doomed c = None \<Longrightarrow> tpe_trace c' = tpe_trace c @ [Delegated (StopInteractiveSession p pl)]"
  using assms
  by (auto simp: StopInteractiveSession_transaction_def transaction_def
      StopInteractiveSession__transaction_def split: option.splits if_splits)

lemma delete_ok:
  assumes "db_session_delete F r c = (Inr x, c')"
  shows "tpe_doomed c' = tpe_doomed c"
    "tpe_trace c' = tpe_trace c @ [Deleted (run_uuid r)]"
    "pipelines (tpe_session c') = pipelines (tpe_session c)"
    "interactive_sessions (tpe_session c') = interactive_sessions (tpe_session c)"
    "interactive_runs (tpe_session c') =
       filter (\<lambda>x. run_uuid x \<noteq> run_uuid r) (interactive_runs (tpe_session c))"
    "tpe_queue c' = tpe_queue c"
  using assms
  by (auto simp: db_session_delete_def split: option.splits)

lemma delete_fail:
  assumes "db_session_delete F r c = (Inl e, c')"
  shows "c' = c" "\<exists>op s. F op s = Some e"
  using assms
  by (auto simp: db_session_delete_def split: option.splits)

lemma filter_mark:
  "filter (\<lambda>x. run_uuid x \<noteq> u) (map (\<lambda>r. if run_uuid r = u then r\<lparr>run_status := t\<rparr> else r) xs) =
   filter (\<lambda>x. run_uuid x \<noteq> u) xs"
  by (induction xs) auto

lemma loop_ok:
  "DeletePipeline_loop F rs c = (Inr x, c') \<Longrightarrow>
     tpe_doomed c' = tpe_doomed c \<and>
     tpe_trace c' = tpe_trace c @ loop_trace rs \<and>
     pipelines (tpe_session c') = pipelines (tpe_session c) \<and>
     interactive_sessions (tpe_session c') = interactive_sessions (tpe_session c) \<and>
     interactive_runs (tpe_session c') =
       filter (\<lambda>x. run_uuid x \<notin> run_uuid ` set rs) (interactive_runs (tpe_session c))"
proof (induction rs arbitrary: c)
  case Nil
  then show ?case by (simp add: loop_trace_def)
next
  case (Cons r rs)
  from Cons.prems obtain u1 c1 u2 c2 where
    a: "AbortPipelineRun_transaction F (run_uuid r) c = (Inr u1, c1)" and
    d: "db_session_delete F r c1 = (Inr u2, c2)" and
    l: "DeletePipeline_loop F rs c2 = (Inr x, c')"
    by (auto split: prod.splits sum.splits)
  note A = abort_ok[OF a] and D = delete_ok[OF d] and L = Cons.IH[OF l]
  have runs2: "interactive_runs (tpe_session c2) =
      filter (\<lambda>x. run_uuid x \<noteq> run_uuid r) (interactive_runs (tpe_session c))"
    by (simp add: D(5) A(6) filter_mark)
  have "interactive_runs (tpe_session c') =
      filter (\<lambda>x. run_uuid x \<notin> run_uuid ` set (r # rs)) (interactive_runs (tpe_session c))"
    using L by (simp add: runs2 conj_commute)
  moreover have "tpe_trace c' = tpe_trace c @ loop_trace (r # rs)"
    using L by (simp add: A(3) D(2) loop_trace_def)
  moreover have "tpe_doomed c' = tpe_doomed c"
    using L by (simp add: A(1,2) D(1))
  moreover have "pipelines (tpe_session c') = pipelines (tpe_session c)"
    using L by (simp add: A(4) D(3))
  moreover have "interactive_sessions (tpe_session c') = interactive_sessions (tpe_session c)"
    using L by (simp add: A(5) D(4))
  ultimately show ?case by blast
qed

lemma loop_queue:
  "DeletePipeline_loop F rs c = (res, c') \<Longrightarrow>
     \<exists>q. tpe_queue c' = tpe_queue c @ q \<and> list_all is_abort_entry q"
proof (induction rs arbitrary: c)
  case Nil
  then show ?case by simp
next
  case (Cons r rs)
  obtain r1 c1 where a: "AbortPipelineRun_transaction F (run_uuid r) c = (r1, c1)"
    by (cases "AbortPipelineRun_transaction F (run_uuid r) c")
  show ?case
  proof (cases r1)
    case (Inl e)
    then show ?thesis using Cons.prems a abort_fail(2)[of F "run_uuid r" c e c1] by auto
  next
    case (Inr u1)
    note A = abort_ok[OF a[unfolded Inr]]
    have q1: "\<exists>q. tpe_queue c1 = tpe_queue c @ q \<and> list_all is_abort_entry q"
      by (simp add: A(7) is_abort_entry_def)
    obtain r2 c2 where d: "db_session_delete F r c1 = (r2, c2)"
      by (cases "db_session_delete F r c1")
    show ?thesis
    proof (cases r2)
      case (Inl e)
      then show ?thesis using Cons.prems a Inr d delete_fail(1)[of F r c1 e c2] q1 by auto
    next
      case (Inr u2)
      have l: "DeletePipeline_loop F rs c2 = (res, c')"
        using Cons.prems a \<open>r1 = Inr u1\<close> d Inr by simp
      from Cons.IH[OF l] obtain q where "tpe_queue c' = tpe_queue c2 @ q" "list_all is_abort_entry q"
        by blast
      moreover have "tpe_queue c2 = tpe_queue c1" using delete_ok(6)[OF d[unfolded Inr]] .
      ultimately show ?thesis using q1 by auto
    qed
  qed
qed

lemma preserves_refl: "preserves F c (Inr x, c)"
  by (simp add: preserves_def)

lemma preserves_trans:
  assumes "preserves F c (Inr x, c1)" and "preserves F c1 rc"
  shows "preserves F c rc"
proof -
  from assms obtain q1 q2 where
    "tpe_queue c1 = tpe_queue c @ q1" "list_all delegated_entry q1"
    "tpe_queue (snd rc) = tpe_queue c1 @ q2" "list_all delegated_entry q2"
    by (auto simp: preserves_def)
  then have q: "\<exists>q. tpe_queue (snd rc) = tpe_queue c @ q \<and> list_all delegated_entry q"
    by auto
  from assms obtain e1 e2 where
    "tpe_trace c1 = tpe_trace c @ e1" "list_all step_event e1"
    "tpe_trace (snd rc) = tpe_trace c1 @ e2" "list_all step_event e2"
    by (auto simp: preserves_def)
  then have t: "\<exists>es. tpe_trace (snd rc) = tpe_trace c @ es \<and> list_all step_event es"
    by auto
  have p: "pipelines (tpe_session (snd rc)) = pipelines (tpe_session c)"
    using assms by (simp add: preserves_def)
  have d: "tpe_doomed c1 = tpe_doomed c"
    using assms(1) by (simp add: preserves_def)
  have r: "(case fst rc of
        Inl e \<Rightarrow> tpe_doomed c = None \<longrightarrow> (\<exists>op s. F op s = Some e)
      | Inr x \<Rightarrow> tpe_doomed (snd rc) = tpe_doomed c)"
    using assms(2) d by (simp add: preserves_def split: sum.splits)
  show ?thesis
    unfolding preserves_def using p q t r by blast
qed

lemma preserves_abort: "preserves F c (AbortPipelineRun_transaction F u c)"
  by (auto simp: preserves_def AbortPipelineRun_transaction_def transaction_def
      AbortPipelineRun__transaction_def step_event_def delegated_entry_def
      split: option.splits if_splits)

lemma preserves_stop: "preserves F c (StopInteractiveSession_transaction F p pl c)"
  by (auto simp: preserves_def StopInteractiveSession_transaction_def transaction_def
      StopInteractiveSession__transaction_def step_event_def delegated_entry_def
      split: option.splits if_splits)

lemma preserves_delete: "preserves F c (db_session_delete F r c)"
  by (auto simp: preserves_def db_session_delete_def step_event_def split: option.splits)

lemma preserves_loop: "preserves F c (DeletePipeline_loop F rs c)"
proof (induction rs arbitrary: c)
  case Nil
  show ?case by (simp add: preserves_refl)
next
  case (Cons r rs)
  obtain r1 c1 where a: "AbortPipelineRun_transaction F (run_uuid r) c = (r1, c1)"
    by (cases "AbortPipelineRun_transaction F (run_uuid r) c")
  have pa: "preserves F c (r1, c1)" using preserves_abort[of F c "run_uuid r"] a by simp
  show ?case
  proof (cases r1)
    case (Inl e)
    then show ?thesis using a pa by simp
  next
    case (Inr u1)
    obtain r2 c2 where d: "db_session_delete F r c1 = (r2, c2)"
      by (cases "db_session_delete F r c1")
    have pd: "preserves F c1 (r2, c2)" using preserves_delete[of F c1 r] d by simp
    show ?thesis
    proof (cases r2)
      case (Inl e)
      then show ?thesis
        using a \<open>r1 = Inr u1\<close> d preserves_trans[OF pa[unfolded \<open>r1 = Inr u1\<close>] pd] by simp
    next
      case (Inr u2)
      have "preserves F c (Inr u2, c2)"
        using preserves_trans[OF pa[unfolded \<open>r1 = Inr u1\<close>] pd] Inr by simp
      from preserves_trans[OF this Cons.IH[of c2]]
      show ?thesis using a \<open>r1 = Inr u1\<close> d Inr by simp
    qed
  qed
qed

lemma preserves_DeletePipeline__transaction:
  "preserves F c (DeletePipeline__transaction F p pl c)"
proof (cases "F (QueryRuns p pl) (tpe_session c)")
  case (Some e)
  then show ?thesis
    by (auto simp: DeletePipeline__transaction_def preserves_def)
next
  case None
  let ?rs = "filter (selected p pl) (interactive_runs (tpe_session c))"
  obtain r1 c1 where l: "DeletePipeline_loop F ?rs c = (r1, c1)"
    by (cases "DeletePipeline_loop F ?rs c")
  have pl: "preserves F c (r1, c1)" using preserves_loop[of F c ?rs] l by simp
  show ?thesis
  proof (cases r1)
    case (Inl e)
    then show ?thesis using None l pl
      by (simp add: DeletePipeline__transaction_def preserves_def)
  next
    case (Inr u1)
    obtain r2 c2 where s: "StopInteractiveSession_transaction F p pl c1 = (r2, c2)"
      by (cases "StopInteractiveSession_transaction F p pl c1")
    have "preserves F c1 (r2, c2)" using preserves_stop[of F c1 p pl] s by simp
    from preserves_trans[OF pl[unfolded Inr] this]
    have "preserves F c (r2, c2)" .
    then show ?thesis using None l Inr s
      by (cases r2) (simp_all add: DeletePipeline__transaction_def preserves_def)
  qed
qed

lemma preserves_DeletePipeline_transaction:
  "preserves F c (DeletePipeline_transaction F p pl c)"
proof (cases "tpe_doomed c")
  case (Some d)
  then show ?thesis
    by (simp add: DeletePipeline_transaction_def transaction_def preserves_def)
next
  case None
  let ?c0 = "c\<lparr>tpe_trace := tpe_trace c @ [Delegated (DeletePipeline p pl)]\<rparr>"
  obtain r1 c1 where s: "DeletePipeline__transaction F p pl ?c0 = (r1, c1)"
    by (cases "DeletePipeline__transaction F p pl ?c0")
  have p1: "preserves F ?c0 (r1, c1)"
    using preserves_DeletePipeline__transaction[of F ?c0 p pl] s by simp
  have nospec: "\<And>x. r1 = Inr x \<Longrightarrow> x = None"
    using s by (auto simp: DeletePipeline__transaction_def split: option.splits prod.splits sum.splits)
  from p1 obtain es where "tpe_trace c1 = tpe_trace c @ Delegated (DeletePipeline p pl) # es"
    "list_all step_event es"
    by (auto simp: preserves_def)
  then have t: "\<exists>es. tpe_trace c1 = tpe_trace c @ es \<and> list_all step_event es"
    by (auto simp: step_event_def)
  show ?thesis
  proof (cases r1)
    case (Inl e)
    then show ?thesis using None s p1 t
      by (simp add: DeletePipeline_transaction_def transaction_def preserves_def)
  next
    case (Inr x)
    then show ?thesis using None s p1 t nospec[OF Inr]
      by (simp add: DeletePipeline_transaction_def transaction_def preserves_def)
  qed
qed

lemma preserves_operation: "preserves F c (operation_transaction F op c)"
  by (cases op) (simp_all add: preserves_DeletePipeline_transaction preserves_abort preserves_stop)

lemma preserves_run_operations: "preserves F c (run_operations F ops c)"
proof (induction ops arbitrary: c)
  case Nil
  show ?case by (simp add: preserves_refl)
next
  case (Cons op ops)
  obtain r1 c1 where a: "operation_transaction F op c = (r1, c1)"
    by (cases "operation_transaction F op c")
  have pa: "preserves F c (r1, c1)" using preserves_operation[of F c op] a by simp
  show ?case
  proof (cases r1)
    case (Inl e)
    then show ?thesis using a pa by simp
  next
    case (Inr u1)
    from preserves_trans[OF pa[unfolded Inr] Cons.IH[of c1]]
    show ?thesis using a Inr by simp
  qed
qed

lemma collateral_runs_append: "collateral_runs (xs @ ys) = collateral_runs xs @ collateral_runs ys"
  by (induction xs rule: collateral_runs.induct) simp_all

lemma collateral_runs_step: "list_all step_event es \<Longrightarrow> collateral_runs es = []"
  by (induction es rule: collateral_runs.induct) (simp_all add: step_event_def)

lemma collateral_runs_map: "collateral_runs (map (\<lambda>(op, s). CollateralRun op s) q) = q"
  by (induction q) auto

lemma count_step: "list_all step_event es \<Longrightarrow> count_list es Committed = 0 \<and> RolledBack \<notin> set es"
  by (induction es) (auto simp: step_event_def)

lemma count_map: "count_list (map (\<lambda>(op, s). CollateralRun op s) q) Committed = 0
    \<and> RolledBack \<notin> set (map (\<lambda>(op, s). CollateralRun op s) q)"
  by (induction q) auto

lemma drain_events:
  "snd (snd (drain G q (fs, w, tr))) = tr @ map (\<lambda>(op, s). CollateralRun op s) q"
  by (induction q arbitrary: fs w tr) (auto split: sum.splits)

lemma exit_commit:
  assumes "tpe_doomed c = None" and "F Commit (tpe_session c) = None"
  shows "events (TwoPhaseExecutor_exit F G db w (Inr u, c)) =
           tpe_trace c @ [Committed] @ map (\<lambda>(op, s). CollateralRun op s) (tpe_queue c)"
    and "db_after (TwoPhaseExecutor_exit F G db w (Inr u, c)) = tpe_session c"
proof -
  obtain fs w' tr where d: "drain G (tpe_queue c) ([], w, tpe_trace c @ [Committed]) = (fs, w', tr)"
    by (cases "drain G (tpe_queue c) ([], w, tpe_trace c @ [Committed])")
  show "events (TwoPhaseExecutor_exit F G db w (Inr u, c)) =
           tpe_trace c @ [Committed] @ map (\<lambda>(op, s). CollateralRun op s) (tpe_queue c)"
    using assms d drain_events[of G "tpe_queue c" "[]" w "tpe_trace c @ [Committed]"]
    by (simp add: TwoPhaseExecutor_exit_def)
  show "db_after (TwoPhaseExecutor_exit F G db w (Inr u, c)) = tpe_session c"
    using assms d by (simp add: TwoPhaseExecutor_exit_def)
qed

lemma drain_delegated:
  "list_all delegated_entry q \<Longrightarrow>
     drain G q (fs, w, tr) =
       (fs @ collateral_failures G q, w @ performed G q,
        tr @ map (\<lambda>(op, s). CollateralRun op s) q)"
proof (induction q arbitrary: fs w tr)
  case Nil
  show ?case by (simp add: collateral_failures_def performed_def)
next
  case (Cons x q)
  obtain op spec where x: "x = (op, spec)" by (cases x)
  from Cons.prems have d: "delegated_entry (op, spec)" and q: "list_all delegated_entry q"
    by (simp_all add: x)
  have c: "collateral G op spec w = external_stop G spec w"
    using d by (cases op) (simp_all add: delegated_entry_def)
  show ?case
  proof (cases "G spec")
    case None
    then show ?thesis
      using Cons.IH[OF q] c
      by (simp add: x external_stop_def collateral_failures_def performed_def)
  next
    case (Some t)
    then show ?thesis
      using Cons.IH[OF q] c
      by (simp add: x external_stop_def collateral_failures_def performed_def)
  qed
qed

lemma exit_commit_world:
  assumes "tpe_doomed c = None" and "F Commit (tpe_session c) = None"
    and "list_all delegated_entry (tpe_queue c)"
  shows "world_after (TwoPhaseExecutor_exit F G db w (Inr u, c)) = w @ performed G (tpe_queue c)"
    and "raised (TwoPhaseExecutor_exit F G db w (Inr u, c)) =
           (if collateral_failures G (tpe_queue c) = [] then None
            else Some (CollateralFailure (collateral_failures G (tpe_queue c))))"
  using assms drain_delegated[OF assms(3), of G "[]" w "tpe_trace c @ [Committed]"]
  by (simp_all add: TwoPhaseExecutor_exit_def)

lemma exit_commit_failed:
  assumes "tpe_doomed c = None" and "F Commit (tpe_session c) = Some e"
  shows "TwoPhaseExecutor_exit F G db w (Inr u, c) = rollback (CommitFailed (str e)) db w c"
  using assms by (simp add: TwoPhaseExecutor_exit_def)

text \<open>
  Claim C1, as amended. For every sequence of operations run through one coordinator
  scope that opened and in which every transactional step succeeds (the body returns
  normally): if the commit succeeds, the scope commits exactly once, never rolls back,
  and the collateral effects that run are exactly the registered ones, each once, in the
  order of registration, all after the commit; the stops that the resource managers
  accept are performed in that order, and the refused ones are reported together. If the
  commit raises, the error surfaces as \<open>CommitFailed\<close>, the store and the external world
  are as before, nothing is committed and no collateral effect runs.
\<close>
theorem scope_commits_once:
  assumes "F Begin db = None"
    and "run_operations F ops (fresh_coordinator db) = (Inr u, c)"
  shows "(F Commit (tpe_session c) = None \<longrightarrow>
           events (with_TwoPhaseExecutor F G db w (run_operations F ops)) =
             tpe_trace c @ [Committed] @ map (\<lambda>(op, s). CollateralRun op s) (tpe_queue c)
         \<and> count_list (events (with_TwoPhaseExecutor F G db w (run_operations F ops))) Committed = 1
         \<and> RolledBack \<notin> set (events (with_TwoPhaseExecutor F G db w (run_operations F ops)))
         \<and> collateral_runs (events (with_TwoPhaseExecutor F G db w (run_operations F ops))) = tpe_queue c
         \<and> db_after (with_TwoPhaseExecutor F G db w (run_operations F ops)) = tpe_session c
         \<and> world_after (with_TwoPhaseExecutor F G db w (run_operations F ops)) =
             w @ performed G (tpe_queue c)
         \<and> raised (with_TwoPhaseExecutor F G db w (run_operations F ops)) =
             (if collateral_failures G (tpe_queue c) = [] then None
              else Some (CollateralFailure (collateral_failures G (tpe_queue c)))))
       \<and> (\<forall>e. F Commit (tpe_session c) = Some e \<longrightarrow>
           raised (with_TwoPhaseExecutor F G db w (run_operations F ops)) = Some (CommitFailed (str e))
         \<and> db_after (with_TwoPhaseExecutor F G db w (run_operations F ops)) = db
         \<and> world_after (with_TwoPhaseExecutor F G db w (run_operations F ops)) = w
         \<and> events (with_TwoPhaseExecutor F G db w (run_operations F ops)) = tpe_trace c @ [RolledBack]
         \<and> count_list (events (with_TwoPhaseExecutor F G db w (run_operations F ops))) Committed = 0
         \<and> collateral_runs (events (with_TwoPhaseExecutor F G db w (run_operations F ops))) = [])"
proof -
  let ?r = "with_TwoPhaseExecutor F G db w (run_operations F ops)"
  have p: "preserves F (fresh_coordinator db) (Inr u, c)"
    using preserves_run_operations[of F "fresh_coordinator db" ops] assms(2) by simp
  then have doomed: "tpe_doomed c = None"
    by (simp add: preserves_def fresh_coordinator_def)
  from p have st: "list_all step_event (tpe_trace c)"
    by (auto simp: preserves_def fresh_coordinator_def)
  from p have dq: "list_all delegated_entry (tpe_queue c)"
    by (auto simp: preserves_def fresh_coordinator_def)
  have r: "?r = TwoPhaseExecutor_exit F G db w (Inr u, c)"
    using assms(1,2) by (simp add: with_TwoPhaseExecutor_def TwoPhaseExecutor_open_def)
  have ok: "events ?r = tpe_trace c @ [Committed] @ map (\<lambda>(op, s). CollateralRun op s) (tpe_queue c)
         \<and> count_list (events ?r) Committed = 1
         \<and> RolledBack \<notin> set (events ?r)
         \<and> collateral_runs (events ?r) = tpe_queue c
         \<and> db_after ?r = tpe_session c
         \<and> world_after ?r = w @ performed G (tpe_queue c)
         \<and> raised ?r = (if collateral_failures G (tpe_queue c) = [] then None
              else Some (CollateralFailure (collateral_failures G (tpe_queue c))))"
    if commit: "F Commit (tpe_session c) = None"
  proof -
    have ev: "events ?r = tpe_trace c @ [Committed] @ map (\<lambda>(op, s). CollateralRun op s) (tpe_queue c)"
      unfolding r using doomed commit by (simp add: exit_commit(1))
    have db: "db_after ?r = tpe_session c"
      unfolding r using doomed commit by (simp add: exit_commit(2))
    have wo: "world_after ?r = w @ performed G (tpe_queue c)"
      unfolding r using doomed commit dq by (simp add: exit_commit_world(1))
    have ra: "raised ?r = (if collateral_failures G (tpe_queue c) = [] then None
              else Some (CollateralFailure (collateral_failures G (tpe_queue c))))"
      unfolding r using doomed commit dq by (simp add: exit_commit_world(2))
    have cnt: "count_list (events ?r) Committed = 1"
      using count_step[OF st] count_map[of "tpe_queue c"] by (simp add: ev)
    have rb: "RolledBack \<notin> set (events ?r)"
      using count_step[OF st] count_map[of "tpe_queue c"] by (simp add: ev)
    have cr: "collateral_runs (events ?r) = tpe_queue c"
      using collateral_runs_step[OF st]
      by (simp add: ev collateral_runs_append collateral_runs_map)
    show ?thesis using ev cnt rb cr db wo ra by blast
  qed
  have failed: "raised ?r = Some (CommitFailed (str e))
         \<and> db_after ?r = db \<and> world_after ?r = w
         \<and> events ?r = tpe_trace c @ [RolledBack]
         \<and> count_list (events ?r) Committed = 0
         \<and> collateral_runs (events ?r) = []"
    if commit: "F Commit (tpe_session c) = Some e" for e
  proof -
    have r': "?r = rollback (CommitFailed (str e)) db w c"
      unfolding r using doomed commit by (rule exit_commit_failed)
    have ev: "events ?r = tpe_trace c @ [RolledBack]"
      by (simp add: r' rollback_def)
    have cnt: "count_list (events ?r) Committed = 0"
      using count_step[OF st] by (simp add: ev)
    have cr: "collateral_runs (events ?r) = []"
      using collateral_runs_step[OF st] by (simp add: ev collateral_runs_append)
    have "raised ?r = Some (CommitFailed (str e))" "db_after ?r = db" "world_after ?r = w"
      by (simp_all add: r' rollback_def)
    then show ?thesis using ev cnt cr by blast
  qed
  show ?thesis using ok failed by blast
qed

lemma loop_prefix:
  "DeletePipeline_loop F rs c = (res, c') \<Longrightarrow>
     \<exists>es. tpe_trace c' = tpe_trace c @ es \<and> prefix es (loop_trace rs)"
proof (induction rs arbitrary: c)
  case Nil
  then show ?case by simp
next
  case (Cons r rs)
  let ?a = "Delegated (AbortPipelineRun (run_uuid r))" and ?d = "Deleted (run_uuid r)"
  have lt: "loop_trace (r # rs) = ?a # ?d # loop_trace rs"
    by (simp add: loop_trace_def)
  obtain r1 c1 where a: "AbortPipelineRun_transaction F (run_uuid r) c = (r1, c1)"
    by (cases "AbortPipelineRun_transaction F (run_uuid r) c")
  show ?case
  proof (cases r1)
    case (Inl e)
    then have "c' = c1" using Cons.prems a by simp
    moreover have "tpe_trace c1 = tpe_trace c @ [] \<or> tpe_trace c1 = tpe_trace c @ [?a]"
      using abort_fail(3)[OF a[unfolded Inl]] by simp
    ultimately show ?thesis unfolding lt by (metis prefix_code(1) prefix_code(3) Nil_prefix Cons_prefix_Cons)
  next
    case (Inr u1)
    have t1: "tpe_trace c1 = tpe_trace c @ [?a]" using abort_ok(3)[OF a[unfolded Inr]] .
    obtain r2 c2 where d: "db_session_delete F r c1 = (r2, c2)"
      by (cases "db_session_delete F r c1")
    show ?thesis
    proof (cases r2)
      case (Inl e)
      then have "c' = c1" using Cons.prems a \<open>r1 = Inr u1\<close> d delete_fail(1)[of F r c1 e c2] by simp
      then show ?thesis using t1 unfolding lt by simp
    next
      case (Inr u2)
      have t2: "tpe_trace c2 = tpe_trace c @ [?a, ?d]"
        using delete_ok(2)[OF d[unfolded Inr]] t1 by simp
      have l: "DeletePipeline_loop F rs c2 = (res, c')"
        using Cons.prems a \<open>r1 = Inr u1\<close> d Inr by simp
      from Cons.IH[OF l] obtain es where "tpe_trace c' = tpe_trace c2 @ es" "prefix es (loop_trace rs)"
        by blast
      then have "tpe_trace c' = tpe_trace c @ (?a # ?d # es) \<and> prefix (?a # ?d # es) (loop_trace (r # rs))"
        using t2 unfolding lt by simp
      then show ?thesis by blast
    qed
  qed
qed

lemma delegation_order_loop:
  "delegation_order p pl db =
     loop_trace (filter (selected p pl) (interactive_runs db)) @ [Delegated (StopInteractiveSession p pl)]"
  by (simp add: delegation_order_def loop_trace_def)

lemma step_order:
  assumes "DeletePipeline__transaction F p pl c = (res, c')"
  shows "\<exists>es. tpe_trace c' = tpe_trace c @ es \<and> prefix es (delegation_order p pl (tpe_session c))
           \<and> (\<not> isl res \<longrightarrow> es = delegation_order p pl (tpe_session c))"
proof (cases "F (QueryRuns p pl) (tpe_session c)")
  case (Some e)
  then have "c' = c" "isl res" using assms by (auto simp: DeletePipeline__transaction_def)
  then show ?thesis by simp
next
  case None
  let ?rs = "filter (selected p pl) (interactive_runs (tpe_session c))"
  let ?s = "Delegated (StopInteractiveSession p pl)"
  obtain r1 c1 where l: "DeletePipeline_loop F ?rs c = (r1, c1)"
    by (cases "DeletePipeline_loop F ?rs c")
  from loop_prefix[OF l] obtain es1 where es1: "tpe_trace c1 = tpe_trace c @ es1" "prefix es1 (loop_trace ?rs)"
    by blast
  show ?thesis
  proof (cases r1)
    case (Inl e)
    then have "c' = c1" "isl res" using assms None l by (auto simp: DeletePipeline__transaction_def)
    then show ?thesis using es1 by (auto simp: delegation_order_loop prefix_def)
  next
    case (Inr u1)
    have t1: "tpe_trace c1 = tpe_trace c @ loop_trace ?rs"
      using loop_ok[OF l[unfolded Inr]] by simp
    obtain r2 c2 where s: "StopInteractiveSession_transaction F p pl c1 = (r2, c2)"
      by (cases "StopInteractiveSession_transaction F p pl c1")
    show ?thesis
    proof (cases r2)
      case (Inl e)
      then have c': "c' = c2" "isl res"
        using assms None l \<open>r1 = Inr u1\<close> s by (auto simp: DeletePipeline__transaction_def)
      have "tpe_trace c2 = tpe_trace c1 \<or> tpe_trace c2 = tpe_trace c1 @ [?s]"
        using stop_fail(3)[OF s[unfolded Inl]] .
      then show ?thesis using c' t1 by (auto simp: delegation_order_loop)
    next
      case (Inr u2)
      then have c': "c' = c2"
        using assms None l \<open>r1 = Inr u1\<close> s by (auto simp: DeletePipeline__transaction_def)
      have "tpe_trace c2 = tpe_trace c1 @ [?s]"
        using stop_ok(3)[OF s[unfolded Inr]] .
      then show ?thesis using c' t1 by (simp add: delegation_order_loop)
    qed
  qed
qed

lemma step_runs:
  assumes "DeletePipeline__transaction F p pl c = (Inr x, c')"
  shows "interactive_runs (tpe_session c') =
     filter (\<lambda>r. run_uuid r \<notin> run_uuid ` set (filter (selected p pl) (interactive_runs (tpe_session c))))
       (interactive_runs (tpe_session c))"
proof -
  let ?rs = "filter (selected p pl) (interactive_runs (tpe_session c))"
  from assms obtain u1 c1 u2 where
    l: "DeletePipeline_loop F ?rs c = (Inr u1, c1)" and
    s: "StopInteractiveSession_transaction F p pl c1 = (Inr u2, c')"
    by (auto simp: DeletePipeline__transaction_def split: option.splits prod.splits sum.splits)
  show ?thesis using loop_ok[OF l] stop_ok(5)[OF s] by simp
qed

lemma selected_pending_or_started:
  "filter (selected p pl) (interactive_runs db) = pending_or_started p pl db"
  by (auto simp: pending_or_started_def selected_def intro: filter_cong)

lemma stopping_none:
  "filter (session_matches p pl) ss = [] \<Longrightarrow> stopping p pl ss = ss"
  by (induction ss) (auto simp: stopping_def split: if_splits)

lemma stop_sessions:
  assumes "StopInteractiveSession_transaction F p pl c = (Inr x, c')"
  shows "interactive_sessions (tpe_session c') = stopping p pl (interactive_sessions (tpe_session c))"
proof (cases "filter (session_matches p pl) (interactive_sessions (tpe_session c)) = []")
  case True
  then show ?thesis using stop_ok(7)[OF assms True] by (simp add: stopping_none)
next
  case False
  then show ?thesis using assms
    by (auto simp: StopInteractiveSession_transaction_def transaction_def
        StopInteractiveSession__transaction_def stopping_def split: option.splits if_splits)
qed

lemma loop_queue_exact:
  "distinct (map run_uuid rs) \<Longrightarrow>
   run_uuid ` set rs \<subseteq> run_uuid ` set (interactive_runs (tpe_session c)) \<Longrightarrow>
   DeletePipeline_loop F rs c = (Inr x, c') \<Longrightarrow>
   tpe_queue c' = tpe_queue c @ abort_entries rs"
proof (induction rs arbitrary: c)
  case Nil
  then show ?case by (simp add: abort_entries_def)
next
  case (Cons r rs)
  from Cons.prems(3) obtain u1 c1 u2 c2 where
    a: "AbortPipelineRun_transaction F (run_uuid r) c = (Inr u1, c1)" and
    d: "db_session_delete F r c1 = (Inr u2, c2)" and
    l: "DeletePipeline_loop F rs c2 = (Inr x, c')"
    by (auto split: prod.splits sum.splits)
  note A = abort_ok[OF a] and D = delete_ok[OF d]
  have mem: "run_uuid r \<in> set (map run_uuid (interactive_runs (tpe_session c)))"
    using Cons.prems(2) by auto
  have q2: "tpe_queue c2 = tpe_queue c @ [(AbortPipelineRun (run_uuid r), RunToStop (run_uuid r))]"
    using A(7) D(6) mem by simp
  have runs2: "interactive_runs (tpe_session c2) =
      filter (\<lambda>x. run_uuid x \<noteq> run_uuid r) (interactive_runs (tpe_session c))"
    by (simp add: D(5) A(6) filter_mark)
  have sub: "run_uuid ` set rs \<subseteq> run_uuid ` set (interactive_runs (tpe_session c2))"
  proof
    fix u assume u: "u \<in> run_uuid ` set rs"
    have "run_uuid r \<notin> run_uuid ` set rs" using Cons.prems(1) by simp
    then have "u \<noteq> run_uuid r" using u by blast
    moreover have "u \<in> run_uuid ` set (interactive_runs (tpe_session c))"
      using u Cons.prems(2) by auto
    ultimately show "u \<in> run_uuid ` set (interactive_runs (tpe_session c2))"
      unfolding runs2 by auto
  qed
  have "distinct (map run_uuid rs)" using Cons.prems(1) by simp
  from Cons.IH[OF this sub l] show ?case
    using q2 by (simp add: abort_entries_def)
qed

lemma step_effects:
  assumes "DeletePipeline__transaction F p pl c = (Inr x, c')"
  shows "x = None"
    and "interactive_sessions (tpe_session c') = stopping p pl (interactive_sessions (tpe_session c))"
    and "distinct (map run_uuid (interactive_runs (tpe_session c))) \<Longrightarrow>
         tpe_queue c' = tpe_queue c @ abort_entries (pending_or_started p pl (tpe_session c))
            @ stop_entries p pl (tpe_session c)"
proof -
  let ?rs = "filter (selected p pl) (interactive_runs (tpe_session c))"
  from assms obtain u1 c1 u2 where
    l: "DeletePipeline_loop F ?rs c = (Inr u1, c1)" and
    s: "StopInteractiveSession_transaction F p pl c1 = (Inr u2, c')" and
    x: "x = None"
    by (auto simp: DeletePipeline__transaction_def split: option.splits prod.splits sum.splits)
  note L = loop_ok[OF l]
  show "x = None" by (rule x)
  show "interactive_sessions (tpe_session c') = stopping p pl (interactive_sessions (tpe_session c))"
    using stop_sessions[OF s] L by simp
  show "tpe_queue c' = tpe_queue c @ abort_entries (pending_or_started p pl (tpe_session c))
            @ stop_entries p pl (tpe_session c)"
    if dist: "distinct (map run_uuid (interactive_runs (tpe_session c)))"
  proof -
    have d: "distinct (map run_uuid ?rs)"
      using dist by (rule distinct_map_filter)
    have sub: "run_uuid ` set ?rs \<subseteq> run_uuid ` set (interactive_runs (tpe_session c))"
      by auto
    have q1: "tpe_queue c1 = tpe_queue c @ abort_entries ?rs"
      by (rule loop_queue_exact[OF d sub l])
    have "tpe_queue c' = tpe_queue c1 @ stop_entries p pl (tpe_session c)"
      using stop_ok(6)[OF s] L by (simp add: stop_entries_def)
    then show ?thesis using q1 by (simp add: selected_pending_or_started)
  qed
qed

lemmas model_defs =
  Pipeline_delete_def with_TwoPhaseExecutor_def TwoPhaseExecutor_open_def TwoPhaseExecutor_exit_def
  rollback_def fresh_coordinator_def DeletePipeline_transaction_def DeletePipeline__transaction_def
  AbortPipelineRun_transaction_def AbortPipelineRun__transaction_def
  StopInteractiveSession_transaction_def StopInteractiveSession__transaction_def
  transaction_def db_session_delete_def selected_def session_matches_def
  DeletePipeline__collateral_def external_stop_def message_def
  scenario_store_def empty_store_def no_faults_def no_ext_faults_def failing_def
  delegation_order_def

lemma Pipeline_delete_fst:
  "fst (Pipeline_delete F G p pl db w) =
     with_TwoPhaseExecutor F G db w (DeletePipeline_transaction F p pl)"
  by (simp add: Pipeline_delete_def Let_def split: option.splits)

lemma scope_db:
  "db_after (with_TwoPhaseExecutor F G db w body) = db \<or>
   (\<exists>u c. body (fresh_coordinator db) = (Inr u, c) \<and>
      db_after (with_TwoPhaseExecutor F G db w body) = tpe_session c)"
  by (auto simp: with_TwoPhaseExecutor_def TwoPhaseExecutor_open_def TwoPhaseExecutor_exit_def
      rollback_def split: option.splits prod.splits sum.splits)

lemma scope_events:
  "events (with_TwoPhaseExecutor F G db w body) = [] \<or>
   events (with_TwoPhaseExecutor F G db w body) = tpe_trace (snd (body (fresh_coordinator db))) \<or>
   events (with_TwoPhaseExecutor F G db w body) =
     tpe_trace (snd (body (fresh_coordinator db))) @ [RolledBack] \<or>
   events (with_TwoPhaseExecutor F G db w body) =
     tpe_trace (snd (body (fresh_coordinator db))) @ [Committed] @
       map (\<lambda>(op, s). CollateralRun op s) (tpe_queue (snd (body (fresh_coordinator db))))"
proof (cases "F Begin db")
  case (Some e)
  then show ?thesis by (simp add: with_TwoPhaseExecutor_def TwoPhaseExecutor_open_def)
next
  case None
  obtain res c where b: "body (fresh_coordinator db) = (res, c)"
    by (cases "body (fresh_coordinator db)")
  have r: "with_TwoPhaseExecutor F G db w body = TwoPhaseExecutor_exit F G db w (res, c)"
    using None b by (simp add: with_TwoPhaseExecutor_def TwoPhaseExecutor_open_def)
  show ?thesis
  proof (cases res)
    case (Inl e)
    then show ?thesis using r b by (simp add: TwoPhaseExecutor_exit_def rollback_def)
  next
    case (Inr u)
    show ?thesis
    proof (cases "tpe_doomed c")
      case (Some e)
      then show ?thesis using r b Inr by (simp add: TwoPhaseExecutor_exit_def rollback_def)
    next
      case None
      show ?thesis
      proof (cases "F Commit (tpe_session c)")
        case (Some e)
        then show ?thesis using r b Inr \<open>tpe_doomed c = None\<close>
          by (simp add: TwoPhaseExecutor_exit_def rollback_def)
      next
        case None
        then show ?thesis using r b Inr \<open>tpe_doomed c = None\<close>
          by (simp add: exit_commit(1))
      qed
    qed
  qed
qed

lemma scope_collateral_owned:
  assumes "preserves F' (fresh_coordinator db) (body (fresh_coordinator db))"
  shows "list_all delegated_entry (collateral_runs (events (with_TwoPhaseExecutor F G db w body)))"
proof -
  let ?c = "snd (body (fresh_coordinator db))"
  from assms have q: "list_all delegated_entry (tpe_queue ?c)"
    by (auto simp: preserves_def fresh_coordinator_def)
  from assms have "list_all step_event (tpe_trace ?c)"
    by (auto simp: preserves_def fresh_coordinator_def)
  then have t: "collateral_runs (tpe_trace ?c) = []"
    by (rule collateral_runs_step)
  show ?thesis
    using scope_events[of F G db w body] q t
    by (auto simp: collateral_runs_append collateral_runs_map)
qed

text \<open>
  Scenario A: two executions to abort and an active session; three collateral effects
  run, after one commit, in the order of their registration, and the three stops are
  performed. The same request against a store whose commit raises: \<open>CommitFailed\<close>, the
  store as before, nothing stopped.
\<close>
theorem scope_commits_once_witness:
  "no_faults Begin scenario_store = None
   \<and> fst (run_operations no_faults [DeletePipeline ''proj'' ''pipe''] (fresh_coordinator scenario_store)) = Inr ()
   \<and> no_faults Commit (tpe_session (snd (run_operations no_faults [DeletePipeline ''proj'' ''pipe'']
         (fresh_coordinator scenario_store)))) = None
   \<and> count_list (events (with_TwoPhaseExecutor no_faults no_ext_faults scenario_store []
        (run_operations no_faults [DeletePipeline ''proj'' ''pipe'']))) Committed = 1
   \<and> collateral_runs (events (with_TwoPhaseExecutor no_faults no_ext_faults scenario_store []
        (run_operations no_faults [DeletePipeline ''proj'' ''pipe'']))) =
       [(AbortPipelineRun ''run-1'', RunToStop ''run-1''),
        (AbortPipelineRun ''run-3'', RunToStop ''run-3''),
        (StopInteractiveSession ''proj'' ''pipe'', SessionToStop ''proj'' ''pipe'')]
   \<and> world_after (with_TwoPhaseExecutor no_faults no_ext_faults scenario_store []
        (run_operations no_faults [DeletePipeline ''proj'' ''pipe''])) =
       [RunToStop ''run-1'', RunToStop ''run-3'', SessionToStop ''proj'' ''pipe'']
   \<and> raised (with_TwoPhaseExecutor no_faults no_ext_faults scenario_store []
        (run_operations no_faults [DeletePipeline ''proj'' ''pipe''])) = None
   \<and> failing Commit (StoreError ''commit refused'') Commit
        (tpe_session (snd (run_operations (failing Commit (StoreError ''commit refused''))
           [DeletePipeline ''proj'' ''pipe''] (fresh_coordinator scenario_store)))) =
       Some (StoreError ''commit refused'')
   \<and> raised (with_TwoPhaseExecutor (failing Commit (StoreError ''commit refused'')) no_ext_faults
        scenario_store [] (run_operations (failing Commit (StoreError ''commit refused''))
           [DeletePipeline ''proj'' ''pipe''])) = Some (CommitFailed ''commit refused'')
   \<and> db_after (with_TwoPhaseExecutor (failing Commit (StoreError ''commit refused'')) no_ext_faults
        scenario_store [] (run_operations (failing Commit (StoreError ''commit refused''))
           [DeletePipeline ''proj'' ''pipe''])) = scenario_store"
proof -
  let ?ops = "[DeletePipeline ''proj'' ''pipe'']"
  let ?F = "failing Commit (StoreError ''commit refused'')"
  let ?c = "snd (run_operations no_faults ?ops (fresh_coordinator scenario_store))"
  let ?c' = "snd (run_operations ?F ?ops (fresh_coordinator scenario_store))"
  have h1: "no_faults Begin scenario_store = None"
    by (simp add: no_faults_def)
  have f: "fst (run_operations no_faults ?ops (fresh_coordinator scenario_store)) = Inr ()"
    by (simp add: model_defs)
  then have h2: "run_operations no_faults ?ops (fresh_coordinator scenario_store) = (Inr (), ?c)"
    by (simp add: prod_eq_iff)
  have h3: "no_faults Commit (tpe_session ?c) = None"
    by (simp add: no_faults_def)
  have q: "tpe_queue ?c =
     [(AbortPipelineRun ''run-1'', RunToStop ''run-1''),
      (AbortPipelineRun ''run-3'', RunToStop ''run-3''),
      (StopInteractiveSession ''proj'' ''pipe'', SessionToStop ''proj'' ''pipe'')]"
    by (simp add: model_defs)
  have pf: "performed no_ext_faults
     [(AbortPipelineRun ''run-1'', RunToStop ''run-1''),
      (AbortPipelineRun ''run-3'', RunToStop ''run-3''),
      (StopInteractiveSession ''proj'' ''pipe'', SessionToStop ''proj'' ''pipe'')] =
     [RunToStop ''run-1'', RunToStop ''run-3'', SessionToStop ''proj'' ''pipe'']"
     "collateral_failures no_ext_faults
     [(AbortPipelineRun ''run-1'', RunToStop ''run-1''),
      (AbortPipelineRun ''run-3'', RunToStop ''run-3''),
      (StopInteractiveSession ''proj'' ''pipe'', SessionToStop ''proj'' ''pipe'')] = []"
    by (simp_all add: performed_def collateral_failures_def no_ext_faults_def)
  have g1: "?F Begin scenario_store = None"
    by (simp add: failing_def)
  have "fst (run_operations ?F ?ops (fresh_coordinator scenario_store)) = Inr ()"
    by (simp add: model_defs)
  then have g2: "run_operations ?F ?ops (fresh_coordinator scenario_store) = (Inr (), ?c')"
    by (simp add: prod_eq_iff)
  have g3: "?F Commit (tpe_session ?c') = Some (StoreError ''commit refused'')"
    by (simp add: failing_def)
  note ok = scope_commits_once[OF h1 h2, of no_ext_faults "[]", THEN conjunct1, rule_format, OF h3,
      unfolded q pf append_Nil if_True]
  note ko = scope_commits_once[OF g1 g2, of no_ext_faults "[]", THEN conjunct2, rule_format, OF g3,
      unfolded str.simps]
  have ra: "raised (with_TwoPhaseExecutor no_faults no_ext_faults scenario_store []
        (run_operations no_faults ?ops)) = None"
    using ok by simp
  show ?thesis
    using ok ko ra h1 f h3 g3 by blast
qed

text \<open>
  Without the commit succeeding the statement fails: every transactional step succeeds
  and three collateral effects are registered, yet a commit that raises surfaces as
  \<open>CommitFailed\<close> and leaves the store as it was, nothing committed, no collateral
  effect run and nothing stopped.
\<close>
theorem scope_commit_failure_counterexample:
  "fst (run_operations (failing Commit (StoreError ''commit refused''))
          [DeletePipeline ''proj'' ''pipe''] (fresh_coordinator scenario_store)) = Inr () \<and>
   tpe_queue (snd (run_operations (failing Commit (StoreError ''commit refused''))
          [DeletePipeline ''proj'' ''pipe''] (fresh_coordinator scenario_store))) =
     [(AbortPipelineRun ''run-1'', RunToStop ''run-1''),
      (AbortPipelineRun ''run-3'', RunToStop ''run-3''),
      (StopInteractiveSession ''proj'' ''pipe'', SessionToStop ''proj'' ''pipe'')] \<and>
   raised (with_TwoPhaseExecutor (failing Commit (StoreError ''commit refused''))
      no_ext_faults scenario_store []
      (run_operations (failing Commit (StoreError ''commit refused''))
         [DeletePipeline ''proj'' ''pipe''])) = Some (CommitFailed ''commit refused'') \<and>
   db_after (with_TwoPhaseExecutor (failing Commit (StoreError ''commit refused''))
      no_ext_faults scenario_store []
      (run_operations (failing Commit (StoreError ''commit refused''))
         [DeletePipeline ''proj'' ''pipe''])) = scenario_store \<and>
   world_after (with_TwoPhaseExecutor (failing Commit (StoreError ''commit refused''))
      no_ext_faults scenario_store []
      (run_operations (failing Commit (StoreError ''commit refused''))
         [DeletePipeline ''proj'' ''pipe''])) = [] \<and>
   count_list (events (with_TwoPhaseExecutor (failing Commit (StoreError ''commit refused''))
      no_ext_faults scenario_store []
      (run_operations (failing Commit (StoreError ''commit refused''))
         [DeletePipeline ''proj'' ''pipe'']))) Committed = 0 \<and>
   collateral_runs (events (with_TwoPhaseExecutor (failing Commit (StoreError ''commit refused''))
      no_ext_faults scenario_store []
      (run_operations (failing Commit (StoreError ''commit refused''))
         [DeletePipeline ''proj'' ''pipe'']))) = []"
  by (simp add: model_defs)

text \<open>
  Claim C2. Whenever a transactional step of the delete-pipeline scope raises, the nested
  ones included (their error leaves \<^verbatim>\<open>DeletePipeline(tpe).transaction\<close> unchanged), the
  scope rolls back: the store and the external world are the ones before the request,
  nothing is committed, no collateral effect runs, and the caller gets the original
  error, the very one a store primitive raised, whose text the endpoint answers with
  status 500.
\<close>
theorem delete_rolls_back:
  assumes "F Begin db = None"
    and "DeletePipeline_transaction F p pl (fresh_coordinator db) = (Inl e, c)"
  shows "raised (fst (Pipeline_delete F G p pl db w)) = Some e
       \<and> db_after (fst (Pipeline_delete F G p pl db w)) = db
       \<and> world_after (fst (Pipeline_delete F G p pl db w)) = w
       \<and> events (fst (Pipeline_delete F G p pl db w)) = tpe_trace c @ [RolledBack]
       \<and> count_list (events (fst (Pipeline_delete F G p pl db w))) Committed = 0
       \<and> collateral_runs (events (fst (Pipeline_delete F G p pl db w))) = []
       \<and> snd (Pipeline_delete F G p pl db w) = (message (str e), 500)
       \<and> (\<exists>op s. F op s = Some e)"
proof -
  let ?r = "fst (Pipeline_delete F G p pl db w)"
  have r: "?r = rollback e db w c"
    using assms
    by (simp add: Pipeline_delete_fst with_TwoPhaseExecutor_def TwoPhaseExecutor_open_def
        TwoPhaseExecutor_exit_def)
  have p: "preserves F (fresh_coordinator db) (Inl e :: error + unit, c)"
    using preserves_DeletePipeline_transaction[of F "fresh_coordinator db" p pl] assms(2) by simp
  then have orig: "\<exists>op s. F op s = Some e"
    by (simp add: preserves_def fresh_coordinator_def)
  from p have st: "list_all step_event (tpe_trace c)"
    by (auto simp: preserves_def fresh_coordinator_def)
  have ev: "events ?r = tpe_trace c @ [RolledBack]"
    by (simp add: r rollback_def)
  have cnt: "count_list (events ?r) Committed = 0"
    using count_step[OF st] by (simp add: ev)
  have cr: "collateral_runs (events ?r) = []"
    using collateral_runs_step[OF st] by (simp add: ev collateral_runs_append)
  have resp: "snd (Pipeline_delete F G p pl db w) = (message (str e), 500)"
    using assms
    by (simp add: Pipeline_delete_def with_TwoPhaseExecutor_def TwoPhaseExecutor_open_def
        TwoPhaseExecutor_exit_def rollback_def)
  have "raised ?r = Some e" "db_after ?r = db" "world_after ?r = w"
    by (simp_all add: r rollback_def)
  then show ?thesis using ev cnt cr resp orig by blast
qed

text \<open>
  Scenario B: two executions to clean up, and deleting the second one raises.
\<close>
theorem delete_rolls_back_witness:
  "failing (DeleteRun ''run-3'') (StoreError ''connection lost'') Begin scenario_store = None \<and>
   fst (DeletePipeline_transaction (failing (DeleteRun ''run-3'') (StoreError ''connection lost''))
          ''proj'' ''pipe'' (fresh_coordinator scenario_store)) = Inl (StoreError ''connection lost'') \<and>
   db_after (fst (Pipeline_delete (failing (DeleteRun ''run-3'') (StoreError ''connection lost''))
          no_ext_faults ''proj'' ''pipe'' scenario_store [])) = scenario_store \<and>
   collateral_runs (events (fst (Pipeline_delete
          (failing (DeleteRun ''run-3'') (StoreError ''connection lost''))
          no_ext_faults ''proj'' ''pipe'' scenario_store []))) = [] \<and>
   snd (Pipeline_delete (failing (DeleteRun ''run-3'') (StoreError ''connection lost''))
          no_ext_faults ''proj'' ''pipe'' scenario_store []) = (message ''connection lost'', 500)"
proof -
  let ?F = "failing (DeleteRun ''run-3'') (StoreError ''connection lost'')"
  let ?c = "snd (DeletePipeline_transaction ?F ''proj'' ''pipe'' (fresh_coordinator scenario_store))"
  have h1: "?F Begin scenario_store = None"
    by (simp add: failing_def)
  have f: "fst (DeletePipeline_transaction ?F ''proj'' ''pipe'' (fresh_coordinator scenario_store)) =
      Inl (StoreError ''connection lost'')"
    by (simp add: model_defs)
  then have h2: "DeletePipeline_transaction ?F ''proj'' ''pipe'' (fresh_coordinator scenario_store) =
      (Inl (StoreError ''connection lost''), ?c)"
    by (simp add: prod_eq_iff)
  show ?thesis
    using delete_rolls_back[OF h1 h2, of no_ext_faults "[]", unfolded str.simps] h1 f by blast
qed

text \<open>
  Claim C3. Let \<open>rs\<close> be the runs of the session that belong to the given project and
  pipeline and whose status is PENDING or STARTED, in the order of the table. What the
  transactional step of delete-pipeline does through the coordinator is, for each run of
  \<open>rs\<close> in turn, the delegation to abort-run followed by the deletion of that run's record
  and, after the last run, the delegation to stop-session; an exception leaves it with a
  prefix of this sequence done. When the step returns, the sequence is complete, the
  records of the runs of \<open>rs\<close> are gone from the session and no other run is touched, the
  pipeline's session has been handed to stop-session, and (the primary keys being
  distinct) the same coordinator's queue has received the collateral step of one
  abort-run per run of \<open>rs\<close>, in that order, followed by that of stop-session.
\<close>
theorem DeletePipeline_order:
  assumes "DeletePipeline__transaction F p pl c = (res, c')"
  shows "(\<exists>es. tpe_trace c' = tpe_trace c @ es
            \<and> prefix es (loop_trace (pending_or_started p pl (tpe_session c))
                 @ [Delegated (StopInteractiveSession p pl)]))
       \<and> (\<not> isl res \<longrightarrow>
             res = Inr None
           \<and> tpe_trace c' = tpe_trace c @ loop_trace (pending_or_started p pl (tpe_session c))
                 @ [Delegated (StopInteractiveSession p pl)]
           \<and> interactive_runs (tpe_session c') =
               filter (\<lambda>r. run_uuid r \<notin> run_uuid ` set (pending_or_started p pl (tpe_session c)))
                 (interactive_runs (tpe_session c))
           \<and> interactive_sessions (tpe_session c') =
               stopping p pl (interactive_sessions (tpe_session c))
           \<and> (distinct (map run_uuid (interactive_runs (tpe_session c))) \<longrightarrow>
                tpe_queue c' = tpe_queue c @ abort_entries (pending_or_started p pl (tpe_session c))
                  @ stop_entries p pl (tpe_session c)))"
proof -
  have do: "delegation_order p pl (tpe_session c) =
      loop_trace (pending_or_started p pl (tpe_session c)) @ [Delegated (StopInteractiveSession p pl)]"
    by (simp add: delegation_order_loop selected_pending_or_started)
  from step_order[OF assms] obtain es where
    es: "tpe_trace c' = tpe_trace c @ es" "prefix es (delegation_order p pl (tpe_session c))"
      "\<not> isl res \<longrightarrow> es = delegation_order p pl (tpe_session c)"
    by blast
  have first: "\<exists>es. tpe_trace c' = tpe_trace c @ es
            \<and> prefix es (loop_trace (pending_or_started p pl (tpe_session c))
                 @ [Delegated (StopInteractiveSession p pl)])"
    using es(1,2) unfolding do by blast
  have second: "res = Inr None
           \<and> tpe_trace c' = tpe_trace c @ loop_trace (pending_or_started p pl (tpe_session c))
                 @ [Delegated (StopInteractiveSession p pl)]
           \<and> interactive_runs (tpe_session c') =
               filter (\<lambda>r. run_uuid r \<notin> run_uuid ` set (pending_or_started p pl (tpe_session c)))
                 (interactive_runs (tpe_session c))
           \<and> interactive_sessions (tpe_session c') =
               stopping p pl (interactive_sessions (tpe_session c))
           \<and> (distinct (map run_uuid (interactive_runs (tpe_session c))) \<longrightarrow>
                tpe_queue c' = tpe_queue c @ abort_entries (pending_or_started p pl (tpe_session c))
                  @ stop_entries p pl (tpe_session c))"
    if ok: "\<not> isl res"
  proof -
    from ok obtain x where x: "res = Inr x" by (cases res) auto
    note st = assms[unfolded x]
    have "tpe_trace c' = tpe_trace c @ loop_trace (pending_or_started p pl (tpe_session c))
                 @ [Delegated (StopInteractiveSession p pl)]"
      using es(1,3) ok unfolding do by simp
    moreover have "interactive_runs (tpe_session c') =
               filter (\<lambda>r. run_uuid r \<notin> run_uuid ` set (pending_or_started p pl (tpe_session c)))
                 (interactive_runs (tpe_session c))"
      using step_runs[OF st] by (simp add: selected_pending_or_started)
    moreover have "res = Inr None" using step_effects(1)[OF st] x by simp
    ultimately show ?thesis
      using step_effects(2)[OF st] step_effects(3)[OF st] by blast
  qed
  show ?thesis using first second by blast
qed

theorem DeletePipeline_order_witness:
  "\<not> isl (fst (DeletePipeline__transaction no_faults ''proj'' ''pipe'' (fresh_coordinator scenario_store)))
   \<and> distinct (map run_uuid (interactive_runs (tpe_session (fresh_coordinator scenario_store))))
   \<and> pending_or_started ''proj'' ''pipe'' scenario_store =
       [\<lparr>run_uuid = ''run-1'', run_project_uuid = ''proj'', run_pipeline_uuid = ''pipe'',
          run_status = ''PENDING''\<rparr>,
        \<lparr>run_uuid = ''run-3'', run_project_uuid = ''proj'', run_pipeline_uuid = ''pipe'',
          run_status = ''STARTED''\<rparr>]
   \<and> tpe_trace (snd (DeletePipeline__transaction no_faults ''proj'' ''pipe''
         (fresh_coordinator scenario_store))) =
       [Delegated (AbortPipelineRun ''run-1''), Deleted ''run-1'',
        Delegated (AbortPipelineRun ''run-3''), Deleted ''run-3'',
        Delegated (StopInteractiveSession ''proj'' ''pipe'')]
   \<and> interactive_runs (tpe_session (snd (DeletePipeline__transaction no_faults ''proj'' ''pipe''
         (fresh_coordinator scenario_store)))) =
       [\<lparr>run_uuid = ''run-2'', run_project_uuid = ''proj'', run_pipeline_uuid = ''pipe'',
          run_status = ''SUCCESS''\<rparr>]
   \<and> interactive_sessions (tpe_session (snd (DeletePipeline__transaction no_faults ''proj'' ''pipe''
         (fresh_coordinator scenario_store)))) =
       [\<lparr>session_project_uuid = ''proj'', session_pipeline_uuid = ''pipe'',
          session_status = ''STOPPING''\<rparr>]
   \<and> tpe_queue (snd (DeletePipeline__transaction no_faults ''proj'' ''pipe''
         (fresh_coordinator scenario_store))) =
       [(AbortPipelineRun ''run-1'', RunToStop ''run-1''),
        (AbortPipelineRun ''run-3'', RunToStop ''run-3''),
        (StopInteractiveSession ''proj'' ''pipe'', SessionToStop ''proj'' ''pipe'')]"
proof -
  let ?r = "DeletePipeline__transaction no_faults ''proj'' ''pipe'' (fresh_coordinator scenario_store)"
  let ?r1 = "\<lparr>run_uuid = ''run-1'', run_project_uuid = ''proj'', run_pipeline_uuid = ''pipe'',
          run_status = ''PENDING''\<rparr>"
  let ?r3 = "\<lparr>run_uuid = ''run-3'', run_project_uuid = ''proj'', run_pipeline_uuid = ''pipe'',
          run_status = ''STARTED''\<rparr>"
  have ok: "\<not> isl (fst ?r)"
    by (simp add: model_defs)
  have s: "tpe_session (fresh_coordinator scenario_store) = scenario_store"
      "tpe_trace (fresh_coordinator scenario_store) = []"
      "tpe_queue (fresh_coordinator scenario_store) = []"
    by (simp_all add: fresh_coordinator_def)
  have dist: "distinct (map run_uuid (interactive_runs (tpe_session (fresh_coordinator scenario_store))))"
    by (simp add: fresh_coordinator_def scenario_store_def)
  have rs: "pending_or_started ''proj'' ''pipe'' scenario_store = [?r1, ?r3]"
    by (simp add: pending_or_started_def scenario_store_def)
  have ev: "loop_trace [?r1, ?r3] @ [Delegated (StopInteractiveSession ''proj'' ''pipe'')] =
       [Delegated (AbortPipelineRun ''run-1''), Deleted ''run-1'',
        Delegated (AbortPipelineRun ''run-3''), Deleted ''run-3'',
        Delegated (StopInteractiveSession ''proj'' ''pipe'')]"
    by (simp add: loop_trace_def)
  have runs: "filter (\<lambda>r. run_uuid r \<notin> run_uuid ` set [?r1, ?r3]) (interactive_runs scenario_store) =
       [\<lparr>run_uuid = ''run-2'', run_project_uuid = ''proj'', run_pipeline_uuid = ''pipe'',
          run_status = ''SUCCESS''\<rparr>]"
    by (simp add: scenario_store_def)
  have ss: "stopping ''proj'' ''pipe'' (interactive_sessions scenario_store) =
       [\<lparr>session_project_uuid = ''proj'', session_pipeline_uuid = ''pipe'',
          session_status = ''STOPPING''\<rparr>]"
    by (simp add: stopping_def session_matches_def scenario_store_def)
  have q: "abort_entries [?r1, ?r3] @ stop_entries ''proj'' ''pipe'' scenario_store =
       [(AbortPipelineRun ''run-1'', RunToStop ''run-1''),
        (AbortPipelineRun ''run-3'', RunToStop ''run-3''),
        (StopInteractiveSession ''proj'' ''pipe'', SessionToStop ''proj'' ''pipe'')]"
    by (simp add: abort_entries_def stop_entries_def session_matches_def scenario_store_def)
  have "?r = (fst ?r, snd ?r)" by simp
  note th = DeletePipeline_order[OF this, THEN conjunct2, rule_format, OF ok,
      unfolded s rs ev runs ss append_Nil]
  have qq: "tpe_queue (snd ?r) =
       [(AbortPipelineRun ''run-1'', RunToStop ''run-1''),
        (AbortPipelineRun ''run-3'', RunToStop ''run-3''),
        (StopInteractiveSession ''proj'' ''pipe'', SessionToStop ''proj'' ''pipe'')]"
    using th dist[unfolded s] q by simp
  show ?thesis
    using th ok dist rs qq by blast
qed

text \<open>
  Claim C4. Whatever the request and whatever the store and the resource managers do,
  the table of pipelines after \<^verbatim>\<open>Pipeline.delete\<close> is the table before it: no pipeline
  row is deleted or changed, whether the scope commits or rolls back.
\<close>
theorem delete_keeps_pipeline_rows:
  "pipelines (db_after (fst (Pipeline_delete F G p pl db w))) = pipelines db"
proof -
  let ?body = "DeletePipeline_transaction F p pl"
  have "preserves F (fresh_coordinator db) (?body (fresh_coordinator db))"
    by (rule preserves_DeletePipeline_transaction)
  then have "pipelines (tpe_session (snd (?body (fresh_coordinator db)))) = pipelines db"
    by (simp add: preserves_def fresh_coordinator_def)
  then show ?thesis
    using scope_db[of F G db w ?body] by (auto simp: Pipeline_delete_fst)
qed

theorem delete_keeps_pipeline_rows_witness:
  "raised (fst (Pipeline_delete no_faults no_ext_faults ''proj'' ''pipe'' scenario_store [])) = None
   \<and> interactive_runs (db_after (fst (Pipeline_delete no_faults no_ext_faults ''proj'' ''pipe''
        scenario_store []))) =
      [\<lparr>run_uuid = ''run-2'', run_project_uuid = ''proj'', run_pipeline_uuid = ''pipe'',
         run_status = ''SUCCESS''\<rparr>]
   \<and> pipelines (db_after (fst (Pipeline_delete no_faults no_ext_faults ''proj'' ''pipe''
        scenario_store []))) =
      [[(''project_uuid'', JStr ''proj''), (''uuid'', JStr ''pipe''), (''env_variables'', JObj [])]]"
proof -
  have "pipelines scenario_store =
      [[(''project_uuid'', JStr ''proj''), (''uuid'', JStr ''pipe''), (''env_variables'', JObj [])]]"
    by (simp add: scenario_store_def)
  moreover have "raised (fst (Pipeline_delete no_faults no_ext_faults ''proj'' ''pipe'' scenario_store [])) = None
   \<and> interactive_runs (db_after (fst (Pipeline_delete no_faults no_ext_faults ''proj'' ''pipe''
        scenario_store []))) =
      [\<lparr>run_uuid = ''run-2'', run_project_uuid = ''proj'', run_pipeline_uuid = ''pipe'',
         run_status = ''SUCCESS''\<rparr>]"
    by (simp add: model_defs)
  ultimately show ?thesis
    using delete_keeps_pipeline_rows[of no_faults no_ext_faults "''proj''" "''pipe''" scenario_store "[]"]
    by simp
qed

text \<open>
  Claim C5 fails as stated: with no interactive session in the store, the transactional
  step of delete-pipeline still delegates to stop-session.
\<close>
theorem stop_session_delegated_without_session_counterexample:
  "interactive_sessions empty_store = []
   \<and> fst (DeletePipeline__transaction no_faults ''proj'' ''pipe'' (fresh_coordinator empty_store)) = Inr None
   \<and> tpe_trace (snd (DeletePipeline__transaction no_faults ''proj'' ''pipe''
         (fresh_coordinator empty_store))) = [Delegated (StopInteractiveSession ''proj'' ''pipe'')]"
  by (simp add: model_defs)

text \<open>
  Claim C5, as amended. Whenever the transactional step of delete-pipeline returns, its
  last action is the delegation to stop-session, whether or not an interactive session
  exists. Whether there is a session to stop is the stop-session operation's own
  concern: without one, the sessions are left as they are and the step registers no
  collateral effect besides those of abort-run.
\<close>
theorem stop_session_always_delegated:
  assumes "DeletePipeline__transaction F p pl c = (Inr x, c')"
  shows "tpe_trace c' \<noteq> [] \<and> last (tpe_trace c') = Delegated (StopInteractiveSession p pl)
       \<and> (filter (session_matches p pl) (interactive_sessions (tpe_session c)) = [] \<longrightarrow>
            interactive_sessions (tpe_session c') = interactive_sessions (tpe_session c)
          \<and> (\<exists>q. tpe_queue c' = tpe_queue c @ q \<and> list_all is_abort_entry q))"
proof -
  let ?rs = "filter (selected p pl) (interactive_runs (tpe_session c))"
  from assms obtain u1 c1 u2 where
    l: "DeletePipeline_loop F ?rs c = (Inr u1, c1)" and
    s: "StopInteractiveSession_transaction F p pl c1 = (Inr u2, c')"
    by (auto simp: DeletePipeline__transaction_def split: option.splits prod.splits sum.splits)
  note L = loop_ok[OF l] and S = stop_ok[OF s]
  have t: "tpe_trace c' \<noteq> [] \<and> last (tpe_trace c') = Delegated (StopInteractiveSession p pl)"
    by (simp add: S(3))
  have n: "interactive_sessions (tpe_session c') = interactive_sessions (tpe_session c)
          \<and> (\<exists>q. tpe_queue c' = tpe_queue c @ q \<and> list_all is_abort_entry q)"
    if none: "filter (session_matches p pl) (interactive_sessions (tpe_session c)) = []"
  proof -
    have none1: "filter (session_matches p pl) (interactive_sessions (tpe_session c1)) = []"
      using none L by simp
    have "tpe_session c' = tpe_session c1" using S(7)[OF none1] .
    then have a: "interactive_sessions (tpe_session c') = interactive_sessions (tpe_session c)"
      using L by simp
    have "tpe_queue c' = tpe_queue c1" using S(6) none1 by simp
    then have "\<exists>q. tpe_queue c' = tpe_queue c @ q \<and> list_all is_abort_entry q"
      using loop_queue[OF l] by simp
    then show ?thesis using a by blast
  qed
  show ?thesis using t n by blast
qed

theorem stop_session_always_delegated_witness:
  "DeletePipeline__transaction no_faults ''proj'' ''pipe'' (fresh_coordinator empty_store) =
     (Inr None, snd (DeletePipeline__transaction no_faults ''proj'' ''pipe'' (fresh_coordinator empty_store)))
   \<and> filter (session_matches ''proj'' ''pipe'')
        (interactive_sessions (tpe_session (fresh_coordinator empty_store))) = []
   \<and> last (tpe_trace (snd (DeletePipeline__transaction no_faults ''proj'' ''pipe''
        (fresh_coordinator empty_store)))) = Delegated (StopInteractiveSession ''proj'' ''pipe'')
   \<and> interactive_sessions (tpe_session (snd (DeletePipeline__transaction no_faults ''proj'' ''pipe''
        (fresh_coordinator empty_store)))) = []"
proof -
  let ?c = "snd (DeletePipeline__transaction no_faults ''proj'' ''pipe'' (fresh_coordinator empty_store))"
  have f: "fst (DeletePipeline__transaction no_faults ''proj'' ''pipe'' (fresh_coordinator empty_store)) = Inr None"
    by (simp add: model_defs)
  then have h: "DeletePipeline__transaction no_faults ''proj'' ''pipe'' (fresh_coordinator empty_store) =
      (Inr None, ?c)"
    by (simp add: prod_eq_iff)
  have n: "filter (session_matches ''proj'' ''pipe'')
        (interactive_sessions (tpe_session (fresh_coordinator empty_store))) = []"
    by (simp add: model_defs)
  have e: "interactive_sessions (tpe_session (fresh_coordinator empty_store)) = []"
    by (simp add: model_defs)
  show ?thesis
    using stop_session_always_delegated[OF h] h n e by simp
qed

text \<open>
  Claim C6 is right and the code breaks it. An unexpected store error raised while the
  second execution is deleted comes back to the end user word for word, where the create
  and update endpoints of the same module answer with a fixed message.
\<close>
theorem delete_leaks_error_text:
  "snd (Pipeline_delete (failing (DeleteRun ''run-3'')
          (StoreError ''(psycopg2.OperationalError) server closed the connection unexpectedly''))
        no_ext_faults ''proj'' ''pipe'' scenario_store []) =
     (JObj [(''message'',
         JStr ''(psycopg2.OperationalError) server closed the connection unexpectedly'')], 500)
   \<and> snd (Pipeline_put (failing Commit
          (StoreError ''(psycopg2.OperationalError) server closed the connection unexpectedly''))
        ''proj'' ''pipe'' (JObj []) scenario_store) =
     (JObj [(''message'', JStr ''Failed update operation.'')], 500)"
  by (simp add: model_defs Pipeline_put_def pipeline_matches_def update_row_def)

text \<open>
  Claim C7. The collateral step of delete-pipeline changes nothing in the external world
  and never fails. Every collateral effect that \<^verbatim>\<open>DeletePipeline(tpe).transaction\<close>
  registers, and every collateral effect that runs in the scope of \<^verbatim>\<open>Pipeline.delete\<close>,
  belongs to a delegated abort-run or stop-session operation; delete-pipeline itself
  registers none.
\<close>
theorem DeletePipeline_collateral_none:
  "DeletePipeline__collateral w = Inr w
   \<and> collateral G (DeletePipeline p pl) spec w = Inr w
   \<and> (\<exists>q. tpe_queue (snd (DeletePipeline_transaction F p pl c)) = tpe_queue c @ q
          \<and> list_all delegated_entry q)
   \<and> list_all delegated_entry
       (collateral_runs (events (fst (Pipeline_delete F G p pl db w))))"
proof -
  have "preserves F c (DeletePipeline_transaction F p pl c)"
    by (rule preserves_DeletePipeline_transaction)
  then have q: "\<exists>q. tpe_queue (snd (DeletePipeline_transaction F p pl c)) = tpe_queue c @ q
          \<and> list_all delegated_entry q"
    by (simp add: preserves_def)
  have "preserves F (fresh_coordinator db) (DeletePipeline_transaction F p pl (fresh_coordinator db))"
    by (rule preserves_DeletePipeline_transaction)
  then have "list_all delegated_entry
       (collateral_runs (events (fst (Pipeline_delete F G p pl db w))))"
    unfolding Pipeline_delete_fst by (rule scope_collateral_owned)
  then show ?thesis using q by (simp add: DeletePipeline__collateral_def)
qed

theorem DeletePipeline_collateral_none_witness:
  "collateral_runs (events (fst (Pipeline_delete no_faults no_ext_faults ''proj'' ''pipe''
      scenario_store []))) =
     [(AbortPipelineRun ''run-1'', RunToStop ''run-1''),
      (AbortPipelineRun ''run-3'', RunToStop ''run-3''),
      (StopInteractiveSession ''proj'' ''pipe'', SessionToStop ''proj'' ''pipe'')]
   \<and> list_all delegated_entry (collateral_runs (events (fst (Pipeline_delete no_faults no_ext_faults
      ''proj'' ''pipe'' scenario_store []))))
   \<and> world_after (fst (Pipeline_delete no_faults no_ext_faults ''proj'' ''pipe'' scenario_store [])) =
     [RunToStop ''run-1'', RunToStop ''run-3'', SessionToStop ''proj'' ''pipe'']"
proof -
  have "collateral_runs (events (fst (Pipeline_delete no_faults no_ext_faults ''proj'' ''pipe''
      scenario_store []))) =
     [(AbortPipelineRun ''run-1'', RunToStop ''run-1''),
      (AbortPipelineRun ''run-3'', RunToStop ''run-3''),
      (StopInteractiveSession ''proj'' ''pipe'', SessionToStop ''proj'' ''pipe'')]
   \<and> world_after (fst (Pipeline_delete no_faults no_ext_faults ''proj'' ''pipe'' scenario_store [])) =
     [RunToStop ''run-1'', RunToStop ''run-3'', SessionToStop ''proj'' ''pipe'']"
    by (simp add: model_defs)
  then show ?thesis
    using DeletePipeline_collateral_none[of "[]" no_ext_faults "''proj''" "''pipe''"
        "RunToStop ''run-1''" no_faults "fresh_coordinator scenario_store" scenario_store]
    by blast
qed






text \<open>
  Claim C9. Let the primary keys of the interactive runs be distinct. A run of the store
  whose status is neither PENDING nor STARTED is never handed to abort-run and never
  deleted by \<^verbatim>\<open>Pipeline.delete\<close>, and it is in the store afterwards with every column as
  before; the runs in such states are the same, in the same order, before and after,
  whether the scope commits or rolls back.
\<close>
theorem delete_leaves_terminal_runs:
  assumes "distinct (map run_uuid (interactive_runs db))"
    and "r \<in> set (interactive_runs db)"
    and "terminal r"
  shows "r \<in> set (interactive_runs (db_after (fst (Pipeline_delete F G p pl db w))))
       \<and> Delegated (AbortPipelineRun (run_uuid r)) \<notin> set (events (fst (Pipeline_delete F G p pl db w)))
       \<and> Deleted (run_uuid r) \<notin> set (events (fst (Pipeline_delete F G p pl db w)))
       \<and> filter terminal (interactive_runs (db_after (fst (Pipeline_delete F G p pl db w)))) =
           filter terminal (interactive_runs db)"
proof -
  let ?sel = "filter (selected p pl) (interactive_runs db)"
  let ?body = "DeletePipeline_transaction F p pl"
  let ?c0 = "fresh_coordinator db"
  let ?c1 = "?c0\<lparr>tpe_trace := tpe_trace ?c0 @ [Delegated (DeletePipeline p pl)]\<rparr>"
  have inj: "inj_on run_uuid (set (interactive_runs db))"
    using assms(1) by (simp add: distinct_map)
  have not_sel: "\<And>x. x \<in> set (interactive_runs db) \<Longrightarrow> terminal x \<Longrightarrow>
      run_uuid x \<notin> run_uuid ` set ?sel"
  proof
    fix x assume x: "x \<in> set (interactive_runs db)" "terminal x" "run_uuid x \<in> run_uuid ` set ?sel"
    then obtain y where y: "y \<in> set (interactive_runs db)" "selected p pl y" "run_uuid y = run_uuid x"
      by auto
    then have "y = x" using inj x(1) by (simp add: inj_on_eq_iff)
    then show False using y(2) x(2) by (simp add: selected_def terminal_def)
  qed
  have keep: "filter terminal (filter (\<lambda>x. run_uuid x \<notin> run_uuid ` set ?sel) (interactive_runs db)) =
      filter terminal (interactive_runs db)"
    using not_sel by (auto intro: filter_cong)
  have runs_cases: "interactive_runs (db_after (with_TwoPhaseExecutor F G db w ?body)) = interactive_runs db \<or>
      interactive_runs (db_after (with_TwoPhaseExecutor F G db w ?body)) =
        filter (\<lambda>x. run_uuid x \<notin> run_uuid ` set ?sel) (interactive_runs db)"
  proof -
    from scope_db[of F G db w ?body]
    show ?thesis
    proof
      assume "db_after (with_TwoPhaseExecutor F G db w ?body) = db"
      then show ?thesis by simp
    next
      assume "\<exists>u c. ?body ?c0 = (Inr u, c) \<and> db_after (with_TwoPhaseExecutor F G db w ?body) = tpe_session c"
      then obtain u c where b: "?body ?c0 = (Inr u, c)"
        and d: "db_after (with_TwoPhaseExecutor F G db w ?body) = tpe_session c"
        by blast
      from b obtain x c2 where st: "DeletePipeline__transaction F p pl ?c1 = (Inr x, c2)"
        and same: "tpe_session c = tpe_session c2"
        by (auto simp: DeletePipeline_transaction_def transaction_def fresh_coordinator_def
            split: option.splits prod.splits sum.splits)
      have "interactive_runs (tpe_session c) =
          filter (\<lambda>x. run_uuid x \<notin> run_uuid ` set ?sel) (interactive_runs db)"
        using step_runs[OF st] same by (simp add: fresh_coordinator_def)
      then show ?thesis using d by simp
    qed
  qed
  have fl: "filter terminal (interactive_runs (db_after (with_TwoPhaseExecutor F G db w ?body))) =
      filter terminal (interactive_runs db)"
    using runs_cases keep by auto
  have "r \<in> set (filter terminal (interactive_runs db))"
    using assms(2,3) by simp
  then have mem: "r \<in> set (interactive_runs (db_after (with_TwoPhaseExecutor F G db w ?body)))"
    unfolding fl[symmetric] by simp
  let ?a = "Delegated (AbortPipelineRun (run_uuid r))" and ?d = "Deleted (run_uuid r)"
  have nr: "run_uuid r \<notin> run_uuid ` set ?sel"
    using not_sel[OF assms(2,3)] .
  have order: "?a \<notin> set (delegation_order p pl db) \<and> ?d \<notin> set (delegation_order p pl db)"
    using nr by (auto simp: delegation_order_def)
  have tr: "?a \<notin> set (tpe_trace (snd (?body ?c0))) \<and> ?d \<notin> set (tpe_trace (snd (?body ?c0)))"
  proof -
    obtain res c where st: "DeletePipeline__transaction F p pl ?c1 = (res, c)"
      by (cases "DeletePipeline__transaction F p pl ?c1")
    from step_order[OF st] obtain es where
      es: "tpe_trace c = tpe_trace ?c1 @ es" "prefix es (delegation_order p pl (tpe_session ?c1))"
      by blast
    have "set es \<subseteq> set (delegation_order p pl db)"
      using set_mono_prefix[OF es(2)] by (simp add: fresh_coordinator_def)
    then have "?a \<notin> set (tpe_trace c) \<and> ?d \<notin> set (tpe_trace c)"
      using order es(1) by (auto simp: fresh_coordinator_def)
    moreover have "tpe_trace (snd (?body ?c0)) = tpe_trace c"
      using st by (auto simp: DeletePipeline_transaction_def transaction_def fresh_coordinator_def
          split: sum.splits option.splits)
    ultimately show ?thesis by simp
  qed
  have ev: "?a \<notin> set (events (with_TwoPhaseExecutor F G db w ?body))
      \<and> ?d \<notin> set (events (with_TwoPhaseExecutor F G db w ?body))"
    using scope_events[of F G db w ?body] tr by auto
  show ?thesis
    using mem ev fl by (simp add: Pipeline_delete_fst)
qed

theorem delete_leaves_terminal_runs_witness:
  "distinct (map run_uuid (interactive_runs scenario_store))
   \<and> \<lparr>run_uuid = ''run-2'', run_project_uuid = ''proj'', run_pipeline_uuid = ''pipe'',
       run_status = ''SUCCESS''\<rparr> \<in> set (interactive_runs scenario_store)
   \<and> terminal \<lparr>run_uuid = ''run-2'', run_project_uuid = ''proj'', run_pipeline_uuid = ''pipe'',
       run_status = ''SUCCESS''\<rparr>
   \<and> raised (fst (Pipeline_delete no_faults no_ext_faults ''proj'' ''pipe'' scenario_store [])) = None
   \<and> \<lparr>run_uuid = ''run-2'', run_project_uuid = ''proj'', run_pipeline_uuid = ''pipe'',
       run_status = ''SUCCESS''\<rparr>
       \<in> set (interactive_runs (db_after (fst (Pipeline_delete no_faults no_ext_faults
            ''proj'' ''pipe'' scenario_store []))))
   \<and> Deleted ''run-2'' \<notin> set (events (fst (Pipeline_delete no_faults no_ext_faults
            ''proj'' ''pipe'' scenario_store [])))"
proof -
  let ?r = "\<lparr>run_uuid = ''run-2'', run_project_uuid = ''proj'', run_pipeline_uuid = ''pipe'',
       run_status = ''SUCCESS''\<rparr>"
  have h1: "distinct (map run_uuid (interactive_runs scenario_store))"
    by (simp add: scenario_store_def)
  have h2: "?r \<in> set (interactive_runs scenario_store)"
    by (simp add: scenario_store_def)
  have h3: "terminal ?r"
    by (simp add: terminal_def)
  have c: "raised (fst (Pipeline_delete no_faults no_ext_faults ''proj'' ''pipe'' scenario_store [])) = None"
    by (simp add: model_defs)
  show ?thesis
    using delete_leaves_terminal_runs[OF h1 h2 h3, of no_faults no_ext_faults "''proj''" "''pipe''" "[]"]
      h1 h2 h3 c
    by simp
qed




end
